theory Spec2Isabelle
  imports Main "HOL-Library.AList"
begin

section \<open>JavaScript values\<close>

text \<open>
  The values that can stand in the \<open>plans\<close> configuration and in the hooks of the schema.
  A function is known by its identity only (\<open>JFun\<close>); an object that is not callable
  (a plain object, an array) is known by its identity and by its own enumerable
  string-keyed properties, listed in property enumeration order, which is what
  \<open>Object.entries\<close>, \<open>Object.assign\<close>, \<open>in\<close> and a property read see of a plain
  data object.  Numbers are opaque to the code apart from their truthiness, so the
  integral ones and \<open>NaN\<close> are enough.  Symbols, bigints, getters, proxies and properties
  inherited from a prototype other than the standard ones are outside the model.
\<close>

datatype jsval =
    JUndefined
  | JNull
  | JBool bool
  | JNum int
  | JNaN
  | JStr string
  | JFun nat
  | JObj nat "(string \<times> jsval) list"

type_synonym props = "(string \<times> jsval) list"

text \<open>The \<open>typeof\<close> operator.\<close>

fun typeof :: "jsval \<Rightarrow> string" where
  "typeof JUndefined = ''undefined''"
| "typeof JNull = ''object''"
| "typeof (JBool b) = ''boolean''"
| "typeof (JNum n) = ''number''"
| "typeof JNaN = ''number''"
| "typeof (JStr s) = ''string''"
| "typeof (JFun f) = ''function''"
| "typeof (JObj a ps) = ''object''"

text \<open>Conversion to boolean, as \<open>!x\<close> and \<open>if (x)\<close> do it.\<close>

fun truthy :: "jsval \<Rightarrow> bool" where
  "truthy JUndefined = False"
| "truthy JNull = False"
| "truthy (JBool b) = b"
| "truthy (JNum n) = (n \<noteq> 0)"
| "truthy JNaN = False"
| "truthy (JStr s) = (s \<noteq> [])"
| "truthy (JFun f) = True"
| "truthy (JObj a ps) = True"

text \<open>
  A property read \<open>v.k\<close> on a value that is neither \<open>null\<close> nor \<open>undefined\<close> (on those
  the read throws; the one place of the code where that can happen tests for it itself).
  The keys the code reads (\<open>resolve\<close>, \<open>subscribe\<close>, \<open>plan\<close>, \<open>subscribePlan\<close>, \<open>args\<close>,
  \<open>applyPlan\<close>, \<open>value\<close>, \<open>__resolveType\<close>, \<open>serialize\<close>, \<open>parseValue\<close>,
  \<open>parseLiteral\<close>) are not properties of the standard prototypes, so a primitive has none
  of them.  (The code reads no property of a function: a function never passes the tests
  that come before the reads.)
\<close>

fun get_prop :: "jsval \<Rightarrow> string \<Rightarrow> jsval" where
  "get_prop (JObj a ps) k = (case map_of ps k of Some v \<Rightarrow> v | None \<Rightarrow> JUndefined)"
| "get_prop v k = JUndefined"

text \<open>The \<open>in\<close> operator, on an object.\<close>

fun has_prop :: "string \<Rightarrow> jsval \<Rightarrow> bool" where
  "has_prop k (JObj a ps) = (k \<in> fst ` set ps)"
| "has_prop k v = False"

fun show_nat :: "nat \<Rightarrow> string" where
  "show_nat n =
     (if n < 10 then [''0123456789'' ! n]
      else show_nat (n div 10) @ [''0123456789'' ! (n mod 10)])"

text \<open>
  The own enumerable properties \<open>Object.assign\<close> copies from a source: those of an
  object; the characters of a string, keyed by their index; none of \<open>null\<close>,
  \<open>undefined\<close>, a number or a boolean.  (A function never reaches \<open>Object.assign\<close> in
  this code.)
\<close>

fun own_enumerable :: "jsval \<Rightarrow> props" where
  "own_enumerable (JObj a ps) = ps"
| "own_enumerable (JStr s) = map (\<lambda>i. (show_nat i, JStr [s ! i])) [0 ..< length s]"
| "own_enumerable v = []"

text \<open>
  \<open>Object.entries\<close> lists the same properties.  (It throws on \<open>null\<close> and
  \<open>undefined\<close>; the code calls it on values it has tested to be objects.)
\<close>

definition entries :: "jsval \<Rightarrow> props" where
  "entries v = own_enumerable v"

text \<open>
  \<open>Object.assign(target, source)\<close> on the properties of the target: each property of the
  source is set in turn; setting a key that exists keeps its place, a new key goes last.
\<close>

definition object_assign :: "props \<Rightarrow> jsval \<Rightarrow> props" where
  "object_assign target source =
     foldl (\<lambda>t (k, v). AList.update k v t) target (own_enumerable source)"

definition startsWith :: "string \<Rightarrow> string \<Rightarrow> bool" where
  "startsWith s p = (take (length p) s = p)"

definition quoted :: "string \<Rightarrow> string" where
  "quoted s = [CHR 0x27] @ s @ [CHR 0x27]"


section \<open>The schema\<close>

text \<open>
  The type graph that \<open>buildASTSchema\<close> returns, with the parts of each node that the
  merge reads or writes.  \<open>extensions\<close> is the node's map from namespace to payload; the
  merge writes the namespace \<open>grafast\<close>.  The maps of the graph (\<open>getFields()\<close>, the type
  map) have no prototype, so a lookup finds declared names only.
\<close>

record arg =
  arg_name :: string
  arg_extensions :: props

record field =
  field_args :: "arg list"
  field_resolve :: jsval
  field_subscribe :: jsval
  field_extensions :: props

record input_field =
  input_field_extensions :: props

record enum_value =
  ev_name :: string
  ev_value :: jsval
  ev_extensions :: props

record object_type =
  ot_fields :: "(string \<times> field) list"
  ot_extensions :: props

record input_object_type =
  iot_fields :: "(string \<times> input_field) list"

record abstract_type =
  resolveType :: jsval

record scalar_type =
  serialize :: jsval
  parseValue :: jsval
  parseLiteral :: jsval
  scalar_extensions :: props

record enum_type =
  et_values :: "enum_value list"

text \<open>
  A named type is of one of six classes; \<open>OtherType\<close> stands for a node that none of the
  six predicates \<open>isObjectType\<close> ... \<open>isEnumType\<close> accepts (the type \<open>never\<close> of the last
  branch says that the library has no such node), with the text it prints as.
\<close>

datatype gtype =
    ObjectType object_type
  | InputObjectType input_object_type
  | InterfaceType abstract_type
  | UnionType abstract_type
  | ScalarType scalar_type
  | EnumType enum_type
  | OtherType string

type_synonym schema = "(string \<times> gtype) list"


section \<open>Effects\<close>

text \<open>
  What the merge does besides writing to the graph: lines on the console
  (\<open>console.warn\<close>, \<open>console.error\<close>), allocation of objects (an object literal,
  \<open>Object.create(null)\<close>), and exceptions.  \<open>next_oid\<close> is the identity the next
  allocated object gets: every object that exists has a smaller one.
\<close>

datatype level = Warn | Err

record env =
  console :: "(level \<times> string) list"
  next_oid :: nat

datatype exn = Error string | TypeError

datatype outcome = Done | Threw exn

definition console_warn :: "string \<Rightarrow> env \<Rightarrow> env" where
  "console_warn msg e = e\<lparr>console := console e @ [(Warn, msg)]\<rparr>"

definition console_error :: "string \<Rightarrow> env \<Rightarrow> env" where
  "console_error msg e = e\<lparr>console := console e @ [(Err, msg)]\<rparr>"

definition alloc :: "env \<Rightarrow> nat \<times> env" where
  "alloc e = (next_oid e, e\<lparr>next_oid := Suc (next_oid e)\<rparr>)"

text \<open>
  A \<open>for ... of\<close> loop whose body may \<open>continue\<close> (the body is \<open>Done\<close>) or throw (the
  loop stops, with the state as the throw found it).
\<close>

fun forEach :: "('a \<Rightarrow> 's \<Rightarrow> outcome \<times> 's) \<Rightarrow> 'a list \<Rightarrow> 's \<Rightarrow> outcome \<times> 's" where
  "forEach body [] s = (Done, s)"
| "forEach body (x # xs) s =
     (case body x s of
        (Done, s') \<Rightarrow> forEach body xs s'
      | (Threw e, s') \<Rightarrow> (Threw e, s'))"

text \<open>\<open>xs.find(p)\<close> is \<^const>\<open>List.find\<close>; a write through the element found:\<close>

fun update_first :: "('a \<Rightarrow> bool) \<Rightarrow> ('a \<Rightarrow> 'a) \<Rightarrow> 'a list \<Rightarrow> 'a list" where
  "update_first p g [] = []"
| "update_first p g (x # xs) = (if p x then g x # xs else x # update_first p g xs)"


section \<open>The merge of \<open>makeGrafastSchema\<close>\<close>

text \<open>
  Each loop body works on the node it has a reference to and on the effects; the node
  is put back under its name when the body is left, also by a throw, which is what the
  writes through the reference amount to.
\<close>

type_synonym 'n st = "'n \<times> env"

subsection \<open>Object types\<close>

definition set_grafast :: "jsval \<Rightarrow> props \<Rightarrow> props" where
  "set_grafast v exts = AList.update ''grafast'' v exts"

text \<open>One entry of \<open>fieldSpec.args\<close>.\<close>

definition argStep :: "string \<Rightarrow> string \<Rightarrow> string \<times> jsval \<Rightarrow> field st \<Rightarrow> outcome \<times> field st" where
  "argStep typeName fieldName entry s =
     (case entry of (argName, argSpec) \<Rightarrow>
      case s of (fld, e) \<Rightarrow>
      (case find (\<lambda>a. arg_name a = argName) (field_args fld) of
         None \<Rightarrow>
           (Done, (fld, console_warn
              (quoted ''plans'' @ '' specified configuration for object type '' @ quoted typeName
                 @ '' field '' @ quoted fieldName @ '' arg '' @ quoted argName
                 @ '', but that arg was not present in the type'') e))
       | Some a \<Rightarrow>
           if typeof argSpec = ''function'' then
             (Threw (Error
                (''Invalid configuration for plans.'' @ typeName @ ''.'' @ fieldName @ ''.args.''
                   @ argName
                   @ '' - saw a function, but expected an object with 'inputPlan' (optional) and 'applyPlan' (optional) plans'')),
              (fld, e))
           else
             (case alloc e of (oid, e1) \<Rightarrow>
                (Done,
                 (fld\<lparr>field_args :=
                    update_first (\<lambda>a. arg_name a = argName)
                      (\<lambda>a. a\<lparr>arg_extensions :=
                          set_grafast (JObj oid (object_assign [] argSpec)) (arg_extensions a)\<rparr>)
                      (field_args fld)\<rparr>,
                  e1)))))"

text \<open>
  The four conditional assignments of the branch for a structured spec: \<open>resolve\<close> and
  \<open>subscribe\<close> go to the field, \<open>plan\<close> and \<open>subscribePlan\<close> into the object
  \<open>grafastExtensions\<close> (of identity \<open>oid\<close>) that the field's slot already holds.
\<close>

definition fieldHooks :: "jsval \<Rightarrow> nat \<Rightarrow> field \<Rightarrow> field" where
  "fieldHooks fieldSpec oid fld1 =
     (let fld2 = (if typeof (get_prop fieldSpec ''resolve'') = ''function''
                  then fld1\<lparr>field_resolve := get_prop fieldSpec ''resolve''\<rparr> else fld1);
          fld3 = (if typeof (get_prop fieldSpec ''subscribe'') = ''function''
                  then fld2\<lparr>field_subscribe := get_prop fieldSpec ''subscribe''\<rparr> else fld2);
          gx1 = (if typeof (get_prop fieldSpec ''plan'') = ''function''
                 then AList.update ''plan'' (get_prop fieldSpec ''plan'') [] else []);
          gx2 = (if typeof (get_prop fieldSpec ''subscribePlan'') = ''function''
                 then AList.update ''subscribePlan'' (get_prop fieldSpec ''subscribePlan'') gx1
                 else gx1)
      in fld3\<lparr>field_extensions := set_grafast (JObj oid gx2) (field_extensions fld3)\<rparr>)"

text \<open>
  The body for a field that the type has.  In the branch of a structured spec the
  object \<open>grafastExtensions\<close> is stored in the field first and filled afterwards; the
  reads of \<open>fieldSpec.resolve\<close> ... throw a \<open>TypeError\<close> when the spec is \<open>null\<close> or
  \<open>undefined\<close>, after the empty object has been stored.
\<close>

definition fieldBody :: "string \<Rightarrow> string \<Rightarrow> jsval \<Rightarrow> field st \<Rightarrow> outcome \<times> field st" where
  "fieldBody typeName fieldName fieldSpec s =
     (case s of (fld, e) \<Rightarrow>
      if typeof fieldSpec = ''function'' then
        (case alloc e of (oid, e1) \<Rightarrow>
           (Done,
            (fld\<lparr>field_extensions :=
                set_grafast (JObj oid [(''plan'', fieldSpec)]) (field_extensions fld)\<rparr>, e1)))
      else
        (case alloc e of (oid, e1) \<Rightarrow>
         let fld1 = fld\<lparr>field_extensions := set_grafast (JObj oid []) (field_extensions fld)\<rparr> in
         if fieldSpec = JNull \<or> fieldSpec = JUndefined then (Threw TypeError, (fld1, e1))
         else
           let fld4 = fieldHooks fieldSpec oid fld1 in
           if typeof (get_prop fieldSpec ''args'') = ''object''
              \<and> get_prop fieldSpec ''args'' \<noteq> JNull \<and> get_prop fieldSpec ''args'' \<noteq> JUndefined
           then forEach (argStep typeName fieldName) (entries (get_prop fieldSpec ''args'')) (fld4, e1)
           else (Done, (fld4, e1))))"

text \<open>One entry of the spec of an object type.\<close>

definition objectStep :: "string \<Rightarrow> string \<times> jsval \<Rightarrow> object_type st \<Rightarrow> outcome \<times> object_type st" where
  "objectStep typeName entry s =
     (case entry of (fieldName, fieldSpec) \<Rightarrow>
      case s of (ot, e) \<Rightarrow>
      if fieldName = ''__assertStep'' then
        (case alloc e of (oid, e1) \<Rightarrow>
           (Done,
            (ot\<lparr>ot_extensions :=
                set_grafast (JObj oid [(''assertStep'', fieldSpec)]) (ot_extensions ot)\<rparr>, e1)))
      else if startsWith fieldName ''__'' then
        (Threw (Error (''Unsupported field name '' @ quoted fieldName
                         @ ''; perhaps you meant '' @ quoted ''__assertStep'' @ ''?'')),
         (ot, e))
      else
        (case map_of (ot_fields ot) fieldName of
           None \<Rightarrow>
             (Done, (ot, console_warn
                (quoted ''plans'' @ '' specified configuration for object type '' @ quoted typeName
                   @ '' field '' @ quoted fieldName
                   @ '', but that field was not present in the type'') e))
         | Some fld \<Rightarrow>
             (case fieldBody typeName fieldName fieldSpec (fld, e) of
                (oc, (fld', e')) \<Rightarrow>
                  (oc, (ot\<lparr>ot_fields := AList.update fieldName fld' (ot_fields ot)\<rparr>, e')))))"

subsection \<open>Input object types\<close>

definition inputStep ::
  "string \<Rightarrow> string \<times> jsval \<Rightarrow> input_object_type st \<Rightarrow> outcome \<times> input_object_type st" where
  "inputStep typeName entry s =
     (case entry of (fieldName, fieldSpec) \<Rightarrow>
      case s of (iot, e) \<Rightarrow>
      (case map_of (iot_fields iot) fieldName of
         None \<Rightarrow>
           (Done, (iot, console_warn
              (quoted ''plans'' @ '' specified configuration for input object type ''
                 @ quoted typeName @ '' field '' @ quoted fieldName
                 @ '', but that field was not present in the type'') e))
       | Some fld \<Rightarrow>
           if typeof fieldSpec = ''function'' then
             (Threw (Error
                (''Expected input object type '' @ quoted typeName @ '' field '' @ quoted fieldName
                   @ '' to be an object, but found a function. We don't know if this should be the 'inputPlan' or 'applyPlan' - please supply an object.'')),
              (iot, e))
           else
             (case alloc e of (oid, e1) \<Rightarrow>
                (Done,
                 (iot\<lparr>iot_fields :=
                    AList.update fieldName
                      (fld\<lparr>input_field_extensions :=
                          set_grafast (JObj oid (object_assign [] fieldSpec))
                            (input_field_extensions fld)\<rparr>)
                      (iot_fields iot)\<rparr>,
                  e1)))))"

subsection \<open>Interfaces and unions\<close>

definition polyBody :: "jsval \<Rightarrow> abstract_type \<Rightarrow> abstract_type" where
  "polyBody polySpec t =
     (if truthy (get_prop polySpec ''__resolveType'')
      then t\<lparr>resolveType := get_prop polySpec ''__resolveType''\<rparr> else t)"

subsection \<open>Scalars\<close>

definition scalarBody :: "jsval \<Rightarrow> scalar_type st \<Rightarrow> scalar_type st" where
  "scalarBody scalarSpec s =
     (case s of (t, e) \<Rightarrow>
      let t1 = (if typeof (get_prop scalarSpec ''serialize'') = ''function''
                then t\<lparr>serialize := get_prop scalarSpec ''serialize''\<rparr> else t);
          t2 = (if typeof (get_prop scalarSpec ''parseValue'') = ''function''
                then t1\<lparr>parseValue := get_prop scalarSpec ''parseValue''\<rparr> else t1);
          t3 = (if typeof (get_prop scalarSpec ''parseLiteral'') = ''function''
                then t2\<lparr>parseLiteral := get_prop scalarSpec ''parseLiteral''\<rparr> else t2)
      in
        if typeof (get_prop scalarSpec ''plan'') = ''function'' then
          (case alloc e of (oid, e1) \<Rightarrow>
             (t3\<lparr>scalar_extensions :=
                 set_grafast (JObj oid [(''plan'', get_prop scalarSpec ''plan'')])
                   (scalar_extensions t3)\<rparr>, e1))
        else (t3, e))"

subsection \<open>Enums\<close>

definition write_value :: "string \<Rightarrow> (enum_value \<Rightarrow> enum_value) \<Rightarrow> enum_type \<Rightarrow> enum_type" where
  "write_value enumValueName g et =
     et\<lparr>et_values := update_first (\<lambda>v. ev_name v = enumValueName) g (et_values et)\<rparr>"

definition enumStep :: "string \<Rightarrow> string \<times> jsval \<Rightarrow> enum_type st \<Rightarrow> outcome \<times> enum_type st" where
  "enumStep typeName entry s =
     (case entry of (enumValueName, enumValueSpec) \<Rightarrow>
      case s of (et, e) \<Rightarrow>
      (case find (\<lambda>v. ev_name v = enumValueName) (et_values et) of
         None \<Rightarrow>
           (Done, (et, console_warn
              (quoted ''plans'' @ '' specified configuration for enum type '' @ quoted typeName
                 @ '' value '' @ quoted enumValueName
                 @ '', but that value was not present in the type'') e))
       | Some enumValue \<Rightarrow>
           if typeof enumValueSpec = ''function'' then
             (case alloc e of (oid, e1) \<Rightarrow>
                (Done,
                 (write_value enumValueName
                    (\<lambda>v. v\<lparr>ev_extensions :=
                        set_grafast (JObj oid [(''applyPlan'', enumValueSpec)]) (ev_extensions v)\<rparr>)
                    et,
                  e1)))
           else if typeof enumValueSpec = ''object''
                   \<and> enumValueSpec \<noteq> JNull \<and> enumValueSpec \<noteq> JUndefined then
             (case (if truthy (get_prop enumValueSpec ''applyPlan'') then
                      (case alloc e of (oid, e1) \<Rightarrow>
                         (write_value enumValueName
                            (\<lambda>v. v\<lparr>ev_extensions :=
                                set_grafast
                                  (JObj oid [(''applyPlan'', get_prop enumValueSpec ''applyPlan'')])
                                  (ev_extensions v)\<rparr>)
                            et,
                          e1))
                    else (et, e)) of
                (et1, e1) \<Rightarrow>
                  (Done,
                   (if has_prop ''value'' enumValueSpec
                    then write_value enumValueName
                           (\<lambda>v. v\<lparr>ev_value := get_prop enumValueSpec ''value''\<rparr>) et1
                    else et1,
                    e1)))
           else
             (Done, (write_value enumValueName (\<lambda>v. v\<lparr>ev_value := enumValueSpec\<rparr>) et, e))))"

subsection \<open>The loop over the entries of \<open>plans\<close>\<close>

record mstate =
  schema :: schema
  effects :: env

definition put_type :: "string \<Rightarrow> gtype \<Rightarrow> env \<Rightarrow> mstate \<Rightarrow> mstate" where
  "put_type typeName t e m = \<lparr>schema = AList.update typeName t (schema m), effects = e\<rparr>"

definition invalid_spec :: "jsval \<Rightarrow> bool" where
  "invalid_spec spec = (typeof spec \<noteq> ''object'' \<or> \<not> truthy spec)"

definition mergeEntry :: "string \<times> jsval \<Rightarrow> mstate \<Rightarrow> outcome \<times> mstate" where
  "mergeEntry entry m =
     (case entry of (typeName, spec) \<Rightarrow>
      (case map_of (schema m) typeName of
         None \<Rightarrow>
           (Done, m\<lparr>effects := console_warn
              (quoted ''plans'' @ '' specified configuration for type '' @ quoted typeName
                 @ '', but that type was not present in the schema'') (effects m)\<rparr>)
       | Some (ObjectType ot) \<Rightarrow>
           if invalid_spec spec then
             (Threw (Error (''Invalid object config for '' @ quoted typeName)), m)
           else
             (case forEach (objectStep typeName) (entries spec) (ot, effects m) of
                (oc, (ot', e')) \<Rightarrow> (oc, put_type typeName (ObjectType ot') e' m))
       | Some (InputObjectType iot) \<Rightarrow>
           if invalid_spec spec then
             (Threw (Error (''Invalid input object config for '' @ quoted typeName)), m)
           else
             (case forEach (inputStep typeName) (entries spec) (iot, effects m) of
                (oc, (iot', e')) \<Rightarrow> (oc, put_type typeName (InputObjectType iot') e' m))
       | Some (InterfaceType t) \<Rightarrow>
           if invalid_spec spec then
             (Threw (Error (''Invalid interface/union config for '' @ quoted typeName)), m)
           else (Done, put_type typeName (InterfaceType (polyBody spec t)) (effects m) m)
       | Some (UnionType t) \<Rightarrow>
           if invalid_spec spec then
             (Threw (Error (''Invalid interface/union config for '' @ quoted typeName)), m)
           else (Done, put_type typeName (UnionType (polyBody spec t)) (effects m) m)
       | Some (ScalarType t) \<Rightarrow>
           if invalid_spec spec then
             (Threw (Error (''Invalid scalar config for '' @ quoted typeName)), m)
           else
             (case scalarBody spec (t, effects m) of
                (t', e') \<Rightarrow> (Done, put_type typeName (ScalarType t') e' m))
       | Some (EnumType et) \<Rightarrow>
           if invalid_spec spec then
             (Threw (Error (''Invalid enum config for '' @ quoted typeName)), m)
           else
             (case forEach (enumStep typeName) (entries spec) (et, effects m) of
                (oc, (et', e')) \<Rightarrow> (oc, put_type typeName (EnumType et') e' m))
       | Some (OtherType shown) \<Rightarrow>
           (Done, m\<lparr>effects := console_error (''Unhandled type '' @ shown) (effects m)\<rparr>)))"

text \<open>
  \<open>makeGrafastSchema\<close>, from the schema that \<open>buildASTSchema(parse(typeDefs),
  {enableDeferStream})\<close> has built (a library call, taken as given with the effects it
  leaves) and the entries of \<open>plans\<close> in the order of \<open>Object.entries\<close>.  The function
  returns the schema when the outcome is \<open>Done\<close>; the state of a throw is kept, so that
  what a failing merge has written can be stated.
\<close>

definition mergePlans :: "props \<Rightarrow> mstate \<Rightarrow> outcome \<times> mstate" where
  "mergePlans plans m = forEach mergeEntry plans m"

definition makeGrafastSchema :: "schema \<Rightarrow> env \<Rightarrow> props \<Rightarrow> outcome \<times> mstate" where
  "makeGrafastSchema built e plans = mergePlans plans \<lparr>schema = built, effects = e\<rparr>"


section \<open>What a run leaves of the effects\<close>

text \<open>
  The console is only appended to and identities are only handed out: \<open>env_le e e'\<close>
  says that \<open>e'\<close> can come after \<open>e\<close>.
\<close>

definition env_le :: "env \<Rightarrow> env \<Rightarrow> bool" where
  "env_le e e' = ((\<exists>ls. console e' = console e @ ls) \<and> next_oid e \<le> next_oid e')"


text \<open>
  The word for the class of a node in the messages \<open>Invalid ... config for '...'\<close> of
  the five branches.
\<close>

fun config_kind :: "gtype \<Rightarrow> string" where
  "config_kind (ObjectType t) = ''object''"
| "config_kind (InputObjectType t) = ''input object''"
| "config_kind (InterfaceType t) = ''interface/union''"
| "config_kind (UnionType t) = ''interface/union''"
| "config_kind (ScalarType t) = ''scalar''"
| "config_kind (EnumType t) = ''enum''"
| "config_kind (OtherType s) = []"

text \<open>
  \<open>warn_lines e e'\<close>: the console of \<open>e'\<close> is that of \<open>e\<close> with lines of the warning
  level after it.
\<close>

definition warn_lines :: "env \<Rightarrow> env \<Rightarrow> bool" where
  "warn_lines e e' = (\<exists>ls. console e' = console e @ ls \<and> (\<forall>l \<in> set ls. fst l = Warn))"

text \<open>
  \<open>error_lines_unhandled e e'\<close>: the console of \<open>e'\<close> is that of \<open>e\<close> with lines after
  it of which those of the error level are \<open>Unhandled type ...\<close> lines.
\<close>

definition error_lines_unhandled :: "env \<Rightarrow> env \<Rightarrow> bool" where
  "error_lines_unhandled e e' =
     (\<exists>ls. console e' = console e @ ls
        \<and> (\<forall>l \<in> set ls. fst l = Err \<longrightarrow> (\<exists>shown. snd l = ''Unhandled type '' @ shown)))"

section \<open>An example graph\<close>

text \<open>
  The graph of
  \<^verbatim>\<open>type Query { hello(name: String): String  goodbye: String }\<close>,
  \<^verbatim>\<open>enum Color { RED GREEN }\<close>, \<^verbatim>\<open>input In { a: Int  b: Int }\<close>,
  \<^verbatim>\<open>interface Node { id: ID }\<close> and \<^verbatim>\<open>scalar Date\<close> as the builder leaves it: no
  extension, no resolver, enum values that stand for their names, the scalar's default
  hooks (the functions 90, 91 and 92); and a node \<open>Odd\<close> of no known class.  The
  objects of a configuration have identities below 100.
\<close>

definition ex_hello :: field where
  "ex_hello = \<lparr>field_args = [\<lparr>arg_name = ''name'', arg_extensions = []\<rparr>],
               field_resolve = JUndefined, field_subscribe = JUndefined, field_extensions = []\<rparr>"

definition ex_goodbye :: field where
  "ex_goodbye = \<lparr>field_args = [], field_resolve = JUndefined, field_subscribe = JUndefined,
                 field_extensions = []\<rparr>"

definition ex_query :: object_type where
  "ex_query = \<lparr>ot_fields = [(''hello'', ex_hello), (''goodbye'', ex_goodbye)], ot_extensions = []\<rparr>"

definition ex_color :: enum_type where
  "ex_color = \<lparr>et_values =
     [\<lparr>ev_name = ''RED'', ev_value = JStr ''RED'', ev_extensions = []\<rparr>,
      \<lparr>ev_name = ''GREEN'', ev_value = JStr ''GREEN'', ev_extensions = []\<rparr>]\<rparr>"

definition ex_in :: input_object_type where
  "ex_in = \<lparr>iot_fields = [(''a'', \<lparr>input_field_extensions = []\<rparr>),
                            (''b'', \<lparr>input_field_extensions = []\<rparr>)]\<rparr>"

definition ex_date :: scalar_type where
  "ex_date = \<lparr>serialize = JFun 90, parseValue = JFun 91, parseLiteral = JFun 92,
              scalar_extensions = []\<rparr>"

definition ex_graph :: schema where
  "ex_graph =
     [(''Query'', ObjectType ex_query), (''Color'', EnumType ex_color),
      (''In'', InputObjectType ex_in), (''Node'', InterfaceType \<lparr>resolveType = JUndefined\<rparr>),
      (''Date'', ScalarType ex_date), (''Odd'', OtherType ''Odd'')]"

definition ex_state :: mstate where
  "ex_state = \<lparr>schema = ex_graph, effects = \<lparr>console = [], next_oid = 100\<rparr>\<rparr>"

definition ex_absent_plans :: props where
  "ex_absent_plans = [(''Missing'', JObj 1 [(''f'', JFun 2)]), (''Color'', JObj 3 [(''RED'', JNum 1)])]"

definition ex_enum_plans :: props where
  "ex_enum_plans =
     [(''Color'', JObj 1 [(''RED'', JObj 2 [(''value'', JNum 0)]),
                           (''GREEN'', JObj 3 [(''applyPlan'', JFun 4)])])]"


definition ex_resolve_plans :: props where
  "ex_resolve_plans =
     [(''Query'', JObj 1 [(''hello'', JObj 2 [(''resolve'', JFun 8), (''plan'', JFun 7),
                                               (''subscribePlan'', JStr ''later'')])])]"

definition ex_args_plans :: props where
  "ex_args_plans =
     [(''Query'', JObj 1 [(''hello'', JObj 2 [(''plan'', JFun 7),
        (''args'', JObj 3 [(''name'', JObj 4 [(''autoApply'', JBool True)]),
                           (''nope'', JObj 5 [])])])])]"

definition ex_arg_function_plans :: props where
  "ex_arg_function_plans =
     [(''Query'', JObj 1 [(''hello'', JObj 2 [(''args'', JObj 3 [(''name'', JFun 9)])])])]"

definition ex_ignored_plans :: props where
  "ex_ignored_plans =
     [(''Date'', JObj 1 [(''serialize'', JStr ''iso''), (''parseValue'', JFun 5),
                          (''plan'', JNum 3)]),
      (''Query'', JObj 2 [(''hello'', JObj 3 [(''resolve'', JNull), (''subscribe'', JNum 1),
                                               (''plan'', JStr ''p''), (''subscribePlan'', JObj 4 [])])])]"

definition ex_input_plans :: props where
  "ex_input_plans = [(''In'', JObj 1 [(''a'', JObj 2 [(''inputPlan'', JFun 3)]), (''b'', JFun 4)])]"

definition ex_odd_plans :: props where
  "ex_odd_plans = [(''Odd'', JObj 1 []), (''Color'', JObj 2 [(''RED'', JNum 1)])]"

definition ex_dunder_plans :: props where
  "ex_dunder_plans =
     [(''Date'', JObj 1 [(''__foo'', JNum 1)]), (''Node'', JObj 2 [(''__typo'', JFun 3)]),
      (''In'', JObj 4 [(''__x'', JObj 5 [])]), (''Color'', JObj 6 [(''__y'', JNum 2)])]"

definition ex_dunder_object_plans :: props where
  "ex_dunder_object_plans = [(''Query'', JObj 1 [(''hello'', JFun 7), (''__resolveType'', JFun 8)])]"

definition ex_mismatch_plans :: props where
  "ex_mismatch_plans = [(''Query'', JObj 1 [(''RED'', JNum 1), (''GREEN'', JStr ''g'')])]"

definition ex_nonobject_plans :: props where
  "ex_nonobject_plans = [(''Color'', JStr ''RED''), (''Query'', JObj 1 [])]"

definition ex_plan_string_plans :: props where
  "ex_plan_string_plans = [(''Query'', JObj 1 [(''hello'', JObj 2 [(''plan'', JStr ''p'')])])]"



section \<open>Loops\<close>


lemma forEach_append:
  "forEach body (xs @ ys) s =
     (case forEach body xs s of (Done, s') \<Rightarrow> forEach body ys s' | (Threw e, s') \<Rightarrow> (Threw e, s'))"
  by (induction xs arbitrary: s) (auto split: prod.splits outcome.splits)

lemma forEach_preserves:
  assumes "\<And>x t oc t'. x \<in> set xs \<Longrightarrow> P t \<Longrightarrow> body x t = (oc, t') \<Longrightarrow> P t'"
    and "P s" and "forEach body xs s = (oc, s')"
  shows "P s'"
  using assms
proof (induction xs arbitrary: s)
  case Nil
  then show ?case by simp
next
  case (Cons x xs)
  obtain oc1 s1 where b: "body x s = (oc1, s1)" by (cases "body x s")
  have p1: "P s1" using Cons.prems(1)[of x s oc1 s1] Cons.prems(2) b by simp
  show ?case
  proof (cases oc1)
    case Done
    then have "forEach body xs s1 = (oc, s')" using Cons.prems(3) b by simp
    then show ?thesis using Cons.IH[of s1] Cons.prems(1) p1 by auto
  next
    case (Threw e)
    then have "s' = s1" using Cons.prems(3) b by simp
    then show ?thesis using p1 by simp
  qed
qed

lemma forEach_all_Done:
  assumes "\<And>x t. x \<in> set xs \<Longrightarrow> fst (body x t) = Done"
  shows "fst (forEach body xs s) = Done"
  using assms
proof (induction xs arbitrary: s)
  case Nil
  then show ?case by simp
next
  case (Cons x xs)
  obtain oc1 s1 where b: "body x s = (oc1, s1)" by (cases "body x s")
  have "oc1 = Done" using Cons.prems[of x s] b by simp
  then show ?case using b Cons.IH[of s1] Cons.prems by simp
qed

lemma split_distinct_key:
  assumes "distinct (map fst xs)" and "(k, v) \<in> set xs"
  shows "\<exists>pre post. xs = pre @ (k, v) # post \<and> k \<notin> fst ` set pre \<and> k \<notin> fst ` set post"
proof -
  obtain pre post where xs: "xs = pre @ (k, v) # post"
    using assms(2) by (auto dest: split_list)
  have "k \<notin> fst ` set pre \<and> k \<notin> fst ` set post"
    using assms(1) unfolding xs by auto
  then show ?thesis using xs by blast
qed

lemma forEach_Done_split:
  assumes "forEach body (pre @ x # post) s = (Done, s')"
  shows "\<exists>s1 s2. forEach body pre s = (Done, s1) \<and> body x s1 = (Done, s2)
            \<and> forEach body post s2 = (Done, s')"
  using assms
  by (auto simp: forEach_append split: prod.splits outcome.splits)

lemma forEach_reach:
  assumes "forEach body (pre @ x # post) s = (oc, s')"
  shows "(\<exists>e. oc = Threw e \<and> forEach body pre s = (Threw e, s'))
       \<or> (\<exists>s1. forEach body pre s = (Done, s1)
             \<and> (case body x s1 of (Done, s2) \<Rightarrow> forEach body post s2 = (oc, s')
                 | (Threw e, s2) \<Rightarrow> oc = Threw e \<and> s' = s2))"
  using assms
  by (auto simp: forEach_append split: prod.splits outcome.splits)


lemma forEach_frame:
  assumes run: "forEach body xs s = (oc, s')"
    and notin: "k \<notin> fst ` set xs"
    and frame: "\<And>k' v t oc1 t'. k' \<noteq> k \<Longrightarrow> body (k', v) t = (oc1, t') \<Longrightarrow> obs t' = obs t"
  shows "obs s' = obs s"
proof (rule forEach_preserves[where P = "\<lambda>t. obs t = obs s" and body = body and xs = xs
      and s = s and oc = oc])
  show "obs s = obs s" by simp
  show "forEach body xs s = (oc, s')" by (rule run)
  fix x t oc1 t'
  assume x: "x \<in> set xs" and t: "obs t = obs s" and b: "body x t = (oc1, t')"
  obtain k' v where kv: "x = (k', v)" by (cases x)
  have "k' \<noteq> k" using x notin kv by force
  then have "obs t' = obs t" using frame b kv by blast
  then show "obs t' = obs s" using t by simp
qed

lemma forEach_rel:
  assumes run: "forEach body xs s = (oc, s')"
    and refl: "R s s"
    and step: "\<And>x t oc1 t'. R s t \<Longrightarrow> body x t = (oc1, t') \<Longrightarrow> R s t'"
  shows "R s s'"
  by (rule forEach_preserves[where P = "R s" and body = body and xs = xs and s = s and oc = oc])
     (auto intro: refl run step)

lemma forEach_focus:
  assumes "distinct (map fst xs)" and "(k, v) \<in> set xs" and "forEach body xs s = (Done, s')"
  obtains pre post s1 s2 where "xs = pre @ (k, v) # post"
    and "k \<notin> fst ` set pre" and "k \<notin> fst ` set post"
    and "forEach body pre s = (Done, s1)" and "body (k, v) s1 = (Done, s2)"
    and "forEach body post s2 = (Done, s')"
proof -
  from split_distinct_key[OF assms(1,2)] obtain pre post where xs: "xs = pre @ (k, v) # post"
    and k1: "k \<notin> fst ` set pre" and k2: "k \<notin> fst ` set post"
    by blast
  have run: "forEach body (pre @ (k, v) # post) s = (Done, s')" using assms(3) xs by simp
  from forEach_Done_split[OF run] obtain s1 s2 where
    a: "forEach body pre s = (Done, s1)" and b: "body (k, v) s1 = (Done, s2)"
    and c: "forEach body post s2 = (Done, s')"
    by blast
  show ?thesis by (rule that[OF xs k1 k2 a b c])
qed

lemma forEach_must_throw:
  assumes d: "distinct (map fst xs)" and inx: "(k, v) \<in> set xs"
    and frame: "\<And>k' v' t oc1 t'. k' \<noteq> k \<Longrightarrow> body (k', v') t = (oc1, t') \<Longrightarrow> obs t' = obs t"
    and throws: "\<And>t. obs t = obs s \<Longrightarrow> fst (body (k, v) t) \<noteq> Done"
  shows "fst (forEach body xs s) \<noteq> Done"
proof
  assume "fst (forEach body xs s) = Done"
  then obtain s' where run: "forEach body xs s = (Done, s')"
    by (cases "forEach body xs s") simp
  from forEach_focus[OF d inx run] obtain pre post s1 s2 where
    p1: "k \<notin> fst ` set pre" and p2: "forEach body pre s = (Done, s1)"
    and b: "body (k, v) s1 = (Done, s2)"
    by metis
  have "obs s1 = obs s" by (rule forEach_frame[OF p2 p1]) (rule frame)
  then have "fst (body (k, v) s1) \<noteq> Done" by (rule throws)
  then show False using b by simp
qed


section \<open>Frames and effects of the loop bodies\<close>

lemma env_le_refl: "env_le e e"
  by (simp add: env_le_def)

lemma env_le_trans: "env_le a b \<Longrightarrow> env_le b c \<Longrightarrow> env_le a c"
  by (auto simp: env_le_def)

lemma env_le_warn: "env_le e (console_warn msg e)"
  by (simp add: env_le_def console_warn_def)

lemma env_le_error: "env_le e (console_error msg e)"
  by (simp add: env_le_def console_error_def)

lemma env_le_alloc: "alloc e = (oid, e1) \<Longrightarrow> env_le e e1 \<and> oid = next_oid e \<and> next_oid e1 = Suc oid"
  by (auto simp: env_le_def alloc_def)

lemma env_le_console: "env_le e e' \<Longrightarrow> l \<in> set (console e) \<Longrightarrow> l \<in> set (console e')"
  by (auto simp: env_le_def)

lemma env_le_oid: "env_le e e' \<Longrightarrow> next_oid e \<le> next_oid e'"
  by (simp add: env_le_def)

lemma find_update_first_other:
  assumes "\<And>x. p x \<Longrightarrow> \<not> q x \<and> \<not> q (g x)"
  shows "find q (update_first p g xs) = find q xs"
  using assms by (induction xs) auto

lemma find_update_first_same:
  assumes "\<And>x. p x \<Longrightarrow> p (g x)"
  shows "find p (update_first p g xs) = map_option g (find p xs)"
  using assms by (induction xs) auto

lemma update_first_none: "find p xs = None \<Longrightarrow> update_first p g xs = xs"
  by (induction xs) (auto split: if_splits)

lemma map_of_update_other: "k' \<noteq> k \<Longrightarrow> map_of (AList.update k' v al) k = map_of al k"
  by (simp add: update_conv')

lemma map_of_update_same: "map_of (AList.update k v al) k = Some v"
  by (simp add: update_conv')

subsection \<open>Arguments\<close>

lemma argStep_env: "argStep tn fn x (fld, e) = (oc, (fld', e')) \<Longrightarrow> env_le e e'"
  by (cases x)
     (auto simp: argStep_def env_le_warn env_le_refl dest: env_le_alloc
           split: option.splits if_splits prod.splits)

lemma argStep_hooks:
  "argStep tn fn x (fld, e) = (oc, (fld', e')) \<Longrightarrow>
     field_resolve fld' = field_resolve fld \<and> field_subscribe fld' = field_subscribe fld
     \<and> field_extensions fld' = field_extensions fld"
  by (cases x) (auto simp: argStep_def split: option.splits if_splits prod.splits)

lemma argStep_frame:
  "an' \<noteq> an \<Longrightarrow> argStep tn fn (an', v) (fld, e) = (oc, (fld', e')) \<Longrightarrow>
     find (\<lambda>a. arg_name a = an) (field_args fld') = find (\<lambda>a. arg_name a = an) (field_args fld)"
  by (auto simp: argStep_def split: option.splits if_splits prod.splits
           intro!: find_update_first_other)

lemma argLoop_env:
  assumes "forEach (argStep tn fn) xs (fld, e) = (oc, (fld', e'))"
  shows "env_le e e'"
proof -
  have "env_le (snd (fld, e)) (snd (fld', e'))"
    by (rule forEach_rel[where R = "\<lambda>s t. env_le (snd s) (snd t)", OF assms])
       (auto simp: env_le_refl dest!: argStep_env intro: env_le_trans)
  then show ?thesis by simp
qed

lemma argLoop_hooks:
  assumes "forEach (argStep tn fn) xs (fld, e) = (oc, (fld', e'))"
  shows "field_resolve fld' = field_resolve fld \<and> field_subscribe fld' = field_subscribe fld
     \<and> field_extensions fld' = field_extensions fld"
proof -
  let ?R = "\<lambda>s t. field_resolve (fst t) = field_resolve (fst s)
     \<and> field_subscribe (fst t) = field_subscribe (fst s)
     \<and> field_extensions (fst t) = field_extensions (fst s)"
  have "?R (fld, e) (fld', e')"
    by (rule forEach_rel[where R = ?R, OF assms]) (auto dest: argStep_hooks)
  then show ?thesis by simp
qed

lemma argLoop_frame:
  assumes "forEach (argStep tn fn) xs (fld, e) = (oc, (fld', e'))" and "an \<notin> fst ` set xs"
  shows "find (\<lambda>a. arg_name a = an) (field_args fld') = find (\<lambda>a. arg_name a = an) (field_args fld)"
proof -
  let ?obs = "\<lambda>t. find (\<lambda>a. arg_name a = an) (field_args (fst t))"
  have "?obs (fld', e') = ?obs (fld, e)"
    by (rule forEach_frame[where obs = ?obs, OF assms]) (auto dest: argStep_frame)
  then show ?thesis by simp
qed

subsection \<open>Fields of object types\<close>

lemma fieldHooks_resolve:
  "field_resolve (fieldHooks spec oid fld) =
     (if typeof (get_prop spec ''resolve'') = ''function''
      then get_prop spec ''resolve'' else field_resolve fld)"
  by (simp add: fieldHooks_def Let_def)

lemma fieldHooks_subscribe:
  "field_subscribe (fieldHooks spec oid fld) =
     (if typeof (get_prop spec ''subscribe'') = ''function''
      then get_prop spec ''subscribe'' else field_subscribe fld)"
  by (simp add: fieldHooks_def Let_def)

lemma fieldHooks_args: "field_args (fieldHooks spec oid fld) = field_args fld"
  by (simp add: fieldHooks_def Let_def)

lemma fieldHooks_extensions:
  "field_extensions (fieldHooks spec oid fld) =
     set_grafast (JObj oid
       ((if typeof (get_prop spec ''plan'') = ''function''
         then [(''plan'', get_prop spec ''plan'')] else [])
        @ (if typeof (get_prop spec ''subscribePlan'') = ''function''
           then [(''subscribePlan'', get_prop spec ''subscribePlan'')] else [])))
       (field_extensions fld)"
  by (simp add: fieldHooks_def Let_def)

lemma fieldBody_function:
  "typeof spec = ''function'' \<Longrightarrow>
   fieldBody tn fn spec (fld, e) =
     (Done, (fld\<lparr>field_extensions :=
               set_grafast (JObj (next_oid e) [(''plan'', spec)]) (field_extensions fld)\<rparr>,
             e\<lparr>next_oid := Suc (next_oid e)\<rparr>))"
  by (simp add: fieldBody_def alloc_def)

lemma fieldBody_struct_unfold:
  assumes "typeof spec \<noteq> ''function''" and "spec \<noteq> JNull" and "spec \<noteq> JUndefined"
  shows "fieldBody tn fn spec (fld, e) =
     (if typeof (get_prop spec ''args'') = ''object''
         \<and> get_prop spec ''args'' \<noteq> JNull \<and> get_prop spec ''args'' \<noteq> JUndefined
      then forEach (argStep tn fn) (entries (get_prop spec ''args''))
             (fieldHooks spec (next_oid e)
                (fld\<lparr>field_extensions := set_grafast (JObj (next_oid e) []) (field_extensions fld)\<rparr>),
              e\<lparr>next_oid := Suc (next_oid e)\<rparr>)
      else (Done,
            (fieldHooks spec (next_oid e)
                (fld\<lparr>field_extensions := set_grafast (JObj (next_oid e) []) (field_extensions fld)\<rparr>),
             e\<lparr>next_oid := Suc (next_oid e)\<rparr>)))"
  using assms by (simp add: fieldBody_def alloc_def Let_def)

lemma fieldBody_null:
  assumes "spec = JNull \<or> spec = JUndefined"
  shows "fieldBody tn fn spec (fld, e) =
     (Threw TypeError,
      (fld\<lparr>field_extensions := set_grafast (JObj (next_oid e) []) (field_extensions fld)\<rparr>,
       e\<lparr>next_oid := Suc (next_oid e)\<rparr>))"
  using assms by (auto simp: fieldBody_def alloc_def Let_def)

lemma fieldBody_env:
  assumes "fieldBody tn fn spec (fld, e) = (oc, (fld', e'))"
  shows "env_le e e' \<and> next_oid e < next_oid e'"
proof -
  let ?e1 = "e\<lparr>next_oid := Suc (next_oid e)\<rparr>"
  have a: "env_le e ?e1 \<and> next_oid e < next_oid ?e1" by (simp add: env_le_def)
  show ?thesis
  proof (cases "typeof spec = ''function''")
    case True
    then have "e' = ?e1" using assms by (simp add: fieldBody_function)
    then show ?thesis using a by simp
  next
    case False
    show ?thesis
    proof (cases "spec = JNull \<or> spec = JUndefined")
      case True
      then have "e' = ?e1" using assms by (simp add: fieldBody_null)
      then show ?thesis using a by simp
    next
      case nn: False
      note u = fieldBody_struct_unfold[of spec tn fn fld e, OF False]
      show ?thesis
      proof (cases "typeof (get_prop spec ''args'') = ''object''
                \<and> get_prop spec ''args'' \<noteq> JNull \<and> get_prop spec ''args'' \<noteq> JUndefined")
        case True
        then have "forEach (argStep tn fn) (entries (get_prop spec ''args''))
            (fieldHooks spec (next_oid e)
               (fld\<lparr>field_extensions := set_grafast (JObj (next_oid e) []) (field_extensions fld)\<rparr>),
             ?e1) = (oc, (fld', e'))"
          using assms nn u by simp
        then have "env_le ?e1 e'" by (rule argLoop_env)
        then show ?thesis using a by (auto simp: env_le_def)
      next
        case na: False
        then have "e' = ?e1" using assms nn u by auto
        then show ?thesis using a by simp
      qed
    qed
  qed
qed

lemma fieldBody_struct:
  assumes nf: "typeof spec \<noteq> ''function''" and nn: "spec \<noteq> JNull" "spec \<noteq> JUndefined"
    and run: "fieldBody tn fn spec (fld, e) = (oc, (fld', e'))"
  shows "field_resolve fld' =
           (if typeof (get_prop spec ''resolve'') = ''function''
            then get_prop spec ''resolve'' else field_resolve fld)
       \<and> field_subscribe fld' =
           (if typeof (get_prop spec ''subscribe'') = ''function''
            then get_prop spec ''subscribe'' else field_subscribe fld)
       \<and> field_extensions fld' =
           set_grafast (JObj (next_oid e)
             ((if typeof (get_prop spec ''plan'') = ''function''
               then [(''plan'', get_prop spec ''plan'')] else [])
              @ (if typeof (get_prop spec ''subscribePlan'') = ''function''
                 then [(''subscribePlan'', get_prop spec ''subscribePlan'')] else [])))
             (field_extensions fld)"
proof -
  let ?f1 = "fld\<lparr>field_extensions := set_grafast (JObj (next_oid e) []) (field_extensions fld)\<rparr>"
  let ?f4 = "fieldHooks spec (next_oid e) ?f1"
  note u = fieldBody_struct_unfold[of spec tn fn fld e, OF nf nn]
  have same: "field_resolve fld' = field_resolve ?f4 \<and> field_subscribe fld' = field_subscribe ?f4
     \<and> field_extensions fld' = field_extensions ?f4"
  proof (cases "typeof (get_prop spec ''args'') = ''object''
                \<and> get_prop spec ''args'' \<noteq> JNull \<and> get_prop spec ''args'' \<noteq> JUndefined")
    case True
    then have "forEach (argStep tn fn) (entries (get_prop spec ''args''))
        (?f4, e\<lparr>next_oid := Suc (next_oid e)\<rparr>) = (oc, (fld', e'))"
      using run u by simp
    then show ?thesis by (rule argLoop_hooks)
  next
    case False
    then have "fld' = ?f4" using run u by auto
    then show ?thesis by simp
  qed
  have r: "field_resolve ?f4 = (if typeof (get_prop spec ''resolve'') = ''function''
            then get_prop spec ''resolve'' else field_resolve fld)"
    unfolding fieldHooks_resolve by simp
  have s: "field_subscribe ?f4 = (if typeof (get_prop spec ''subscribe'') = ''function''
            then get_prop spec ''subscribe'' else field_subscribe fld)"
    unfolding fieldHooks_subscribe by simp
  have x: "field_extensions ?f4 = set_grafast (JObj (next_oid e)
             ((if typeof (get_prop spec ''plan'') = ''function''
               then [(''plan'', get_prop spec ''plan'')] else [])
              @ (if typeof (get_prop spec ''subscribePlan'') = ''function''
                 then [(''subscribePlan'', get_prop spec ''subscribePlan'')] else [])))
             (field_extensions fld)"
    unfolding fieldHooks_extensions by (simp add: set_grafast_def)
  show ?thesis unfolding r[symmetric] s[symmetric] x[symmetric] using same by blast
qed

lemma objectStep_env:
  assumes "objectStep tn x (ot, e) = (oc, (ot', e'))"
  shows "env_le e e'"
  using assms
  by (cases x)
     (auto simp: objectStep_def env_le_warn env_le_refl dest: env_le_alloc fieldBody_env
           split: option.splits if_splits prod.splits)

lemma objectStep_frame:
  assumes "fn' \<noteq> fn" and "objectStep tn (fn', v) (ot, e) = (oc, (ot', e'))"
  shows "map_of (ot_fields ot') fn = map_of (ot_fields ot) fn"
  using assms
  by (auto simp: objectStep_def map_of_update_other split: option.splits if_splits prod.splits)

lemma objectStep_field:
  assumes "\<not> startsWith fn ''__''" and "map_of (ot_fields ot) fn = Some fld"
    and "objectStep tn (fn, spec) (ot, e) = (oc, (ot', e'))"
  shows "\<exists>fld'. fieldBody tn fn spec (fld, e) = (oc, (fld', e')) \<and> map_of (ot_fields ot') fn = Some fld'"
proof -
  have ne: "fn \<noteq> ''__assertStep''" using assms(1) by (auto simp: startsWith_def)
  show ?thesis using assms ne
    by (auto simp: objectStep_def map_of_update_same split: prod.splits)
qed

lemma objectLoop_env:
  assumes "forEach (objectStep tn) xs (ot, e) = (oc, (ot', e'))"
  shows "env_le e e'"
proof -
  have "env_le (snd (ot, e)) (snd (ot', e'))"
    by (rule forEach_rel[where R = "\<lambda>s t. env_le (snd s) (snd t)", OF assms])
       (auto simp: env_le_refl dest!: objectStep_env intro: env_le_trans)
  then show ?thesis by simp
qed

lemma objectLoop_frame:
  assumes "forEach (objectStep tn) xs (ot, e) = (oc, (ot', e'))" and "fn \<notin> fst ` set xs"
  shows "map_of (ot_fields ot') fn = map_of (ot_fields ot) fn"
proof -
  let ?obs = "\<lambda>t. map_of (ot_fields (fst t)) fn"
  have "?obs (ot', e') = ?obs (ot, e)"
    by (rule forEach_frame[where obs = ?obs, OF assms]) (auto dest: objectStep_frame)
  then show ?thesis by simp
qed

lemma object_field_focus:
  assumes d: "distinct (map fst es)" and inx: "(fn, spec) \<in> set es"
    and run: "forEach (objectStep tn) es (ot, e) = (Done, (ot', e'))"
    and fld: "map_of (ot_fields ot) fn = Some fld" and nu: "\<not> startsWith fn ''__''"
  shows "\<exists>fld' e1 e2. fieldBody tn fn spec (fld, e1) = (Done, (fld', e2))
           \<and> map_of (ot_fields ot') fn = Some fld' \<and> env_le e e1 \<and> env_le e2 e'"
proof (rule forEach_focus[OF d inx run])
  fix pre post s1 s2
  assume k1: "fn \<notin> fst ` set pre" and k2: "fn \<notin> fst ` set post"
    and a: "forEach (objectStep tn) pre (ot, e) = (Done, s1)"
    and b: "objectStep tn (fn, spec) s1 = (Done, s2)"
    and c: "forEach (objectStep tn) post s2 = (Done, (ot', e'))"
  obtain ot1 e1 where s1: "s1 = (ot1, e1)" by (cases s1)
  obtain ot2 e2 where s2: "s2 = (ot2, e2)" by (cases s2)
  have f1: "map_of (ot_fields ot1) fn = Some fld"
    using objectLoop_frame[OF a[unfolded s1] k1] fld by simp
  have le1: "env_le e e1" using objectLoop_env[OF a[unfolded s1]] .
  from objectStep_field[OF nu f1 b[unfolded s1 s2]] obtain fld' where
    fb: "fieldBody tn fn spec (fld, e1) = (Done, (fld', e2))"
    and f2: "map_of (ot_fields ot2) fn = Some fld'"
    by (elim exE conjE)
  have f3: "map_of (ot_fields ot') fn = Some fld'"
    using objectLoop_frame[OF c[unfolded s2] k2] f2 by simp
  have le2: "env_le e2 e'" using objectLoop_env[OF c[unfolded s2]] .
  show ?thesis using fb f3 le1 le2 by (intro exI conjI)
qed

subsection \<open>Input object types\<close>

lemma inputStep_env:
  assumes "inputStep tn x (iot, e) = (oc, (iot', e'))"
  shows "env_le e e'"
  using assms
  by (cases x)
     (auto simp: inputStep_def env_le_warn env_le_refl dest: env_le_alloc
           split: option.splits if_splits prod.splits)

lemma inputStep_frame:
  assumes "fn' \<noteq> fn" and "inputStep tn (fn', v) (iot, e) = (oc, (iot', e'))"
  shows "map_of (iot_fields iot') fn = map_of (iot_fields iot) fn"
  using assms
  by (auto simp: inputStep_def map_of_update_other split: option.splits if_splits prod.splits)

lemma inputStep_function:
  assumes "map_of (iot_fields iot) fn = Some fld" and "typeof spec = ''function''"
  shows "inputStep tn (fn, spec) (iot, e) =
     (Threw (Error
        (''Expected input object type '' @ quoted tn @ '' field '' @ quoted fn
           @ '' to be an object, but found a function. We don't know if this should be the 'inputPlan' or 'applyPlan' - please supply an object.'')),
      (iot, e))"
  using assms by (simp add: inputStep_def)

lemma inputLoop_env:
  assumes "forEach (inputStep tn) xs (iot, e) = (oc, (iot', e'))"
  shows "env_le e e'"
proof -
  have "env_le (snd (iot, e)) (snd (iot', e'))"
    by (rule forEach_rel[where R = "\<lambda>s t. env_le (snd s) (snd t)", OF assms])
       (auto simp: env_le_refl dest!: inputStep_env intro: env_le_trans)
  then show ?thesis by simp
qed

lemma inputLoop_frame:
  assumes "forEach (inputStep tn) xs (iot, e) = (oc, (iot', e'))" and "fn \<notin> fst ` set xs"
  shows "map_of (iot_fields iot') fn = map_of (iot_fields iot) fn"
proof -
  let ?obs = "\<lambda>t. map_of (iot_fields (fst t)) fn"
  have "?obs (iot', e') = ?obs (iot, e)"
    by (rule forEach_frame[where obs = ?obs, OF assms]) (auto dest: inputStep_frame)
  then show ?thesis by simp
qed

subsection \<open>Scalars\<close>

lemma scalarBody_env:
  assumes "scalarBody spec (t, e) = (t', e')"
  shows "env_le e e'"
proof (cases "typeof (get_prop spec ''plan'') = ''function''")
  case True
  then have "e' = e\<lparr>next_oid := Suc (next_oid e)\<rparr>"
    using assms by (simp add: scalarBody_def alloc_def Let_def)
  then show ?thesis by (simp add: env_le_def)
next
  case False
  then have "e' = e" using assms by (simp add: scalarBody_def Let_def)
  then show ?thesis by (simp add: env_le_refl)
qed

lemma scalarBody_serialize:
  assumes "scalarBody spec (t, e) = (t', e')"
  shows "serialize t' = (if typeof (get_prop spec ''serialize'') = ''function''
                         then get_prop spec ''serialize'' else serialize t)"
  using assms by (simp add: scalarBody_def alloc_def Let_def split: if_splits) auto

lemma scalarBody_parseValue:
  assumes "scalarBody spec (t, e) = (t', e')"
  shows "parseValue t' = (if typeof (get_prop spec ''parseValue'') = ''function''
                         then get_prop spec ''parseValue'' else parseValue t)"
  using assms by (simp add: scalarBody_def alloc_def Let_def split: if_splits) auto

lemma scalarBody_parseLiteral:
  assumes "scalarBody spec (t, e) = (t', e')"
  shows "parseLiteral t' = (if typeof (get_prop spec ''parseLiteral'') = ''function''
                         then get_prop spec ''parseLiteral'' else parseLiteral t)"
  using assms by (simp add: scalarBody_def alloc_def Let_def split: if_splits) auto

lemma scalarBody_plan:
  assumes "scalarBody spec (t, e) = (t', e')"
  shows "scalar_extensions t' =
           (if typeof (get_prop spec ''plan'') = ''function''
            then set_grafast (JObj (next_oid e) [(''plan'', get_prop spec ''plan'')])
                   (scalar_extensions t)
            else scalar_extensions t)
       \<and> console e' = console e"
  using assms by (simp add: scalarBody_def alloc_def Let_def split: if_splits) auto


subsection \<open>Enums\<close>

lemma find_write_value:
  assumes "\<And>v. ev_name (g v) = ev_name v"
  shows "find (\<lambda>v. ev_name v = vn) (et_values (write_value vn g et))
           = map_option g (find (\<lambda>v. ev_name v = vn) (et_values et))"
  unfolding write_value_def using assms by (simp add: find_update_first_same)

lemma find_write_value_other:
  assumes "\<And>v. ev_name (g v) = ev_name v" and "vn' \<noteq> vn"
  shows "find (\<lambda>v. ev_name v = vn) (et_values (write_value vn' g et))
           = find (\<lambda>v. ev_name v = vn) (et_values et)"
  unfolding write_value_def using assms by (auto intro!: find_update_first_other)

lemma enumStep_env:
  assumes "enumStep tn x (et, e) = (oc, (et', e'))"
  shows "env_le e e'"
  using assms
  by (cases x)
     (auto simp: enumStep_def env_le_warn env_le_refl dest: env_le_alloc
           split: option.splits if_splits prod.splits)

lemma enumStep_frame:
  assumes "vn' \<noteq> vn" and "enumStep tn (vn', v) (et, e) = (oc, (et', e'))"
  shows "find (\<lambda>v. ev_name v = vn) (et_values et') = find (\<lambda>v. ev_name v = vn) (et_values et)"
  using assms
  by (auto simp: enumStep_def find_write_value_other split: option.splits if_splits prod.splits)

lemma enumStep_object:
  assumes found: "find (\<lambda>v. ev_name v = vn) (et_values et) = Some ev"
    and obj: "typeof spec = ''object''" "spec \<noteq> JNull" "spec \<noteq> JUndefined"
    and run: "enumStep tn (vn, spec) (et, e) = (oc, (et', e'))"
  shows "oc = Done \<and> (\<exists>ev'. find (\<lambda>v. ev_name v = vn) (et_values et') = Some ev'
           \<and> ev_value ev' = (if has_prop ''value'' spec then get_prop spec ''value'' else ev_value ev))"
proof -
  let ?g = "\<lambda>oid v. v\<lparr>ev_extensions :=
              set_grafast (JObj oid [(''applyPlan'', get_prop spec ''applyPlan'')]) (ev_extensions v)\<rparr>"
  let ?h = "\<lambda>v. v\<lparr>ev_value := get_prop spec ''value''\<rparr>"
  define et1 where "et1 = (if truthy (get_prop spec ''applyPlan'')
                           then write_value vn (?g (next_oid e)) et else et)"
  have nf: "typeof spec \<noteq> ''function''" using obj(1) by simp
  have res: "oc = Done \<and> et' = (if has_prop ''value'' spec then write_value vn ?h et1 else et1)"
    using run found obj nf unfolding et1_def
    by (simp add: enumStep_def alloc_def split: if_splits)
  have f1: "\<exists>ev1. find (\<lambda>v. ev_name v = vn) (et_values et1) = Some ev1 \<and> ev_value ev1 = ev_value ev"
    unfolding et1_def using found by (simp add: find_write_value)
  then obtain ev1 where ev1: "find (\<lambda>v. ev_name v = vn) (et_values et1) = Some ev1"
    and v1: "ev_value ev1 = ev_value ev" by (elim exE conjE)
  show ?thesis
  proof (cases "has_prop ''value'' spec")
    case True
    then have "find (\<lambda>v. ev_name v = vn) (et_values et') = Some (?h ev1)"
      using res ev1 by (simp add: find_write_value)
    then show ?thesis using res True by simp
  next
    case False
    then show ?thesis using res ev1 v1 by simp
  qed
qed

lemma enumLoop_env:
  assumes "forEach (enumStep tn) xs (et, e) = (oc, (et', e'))"
  shows "env_le e e'"
proof -
  have "env_le (snd (et, e)) (snd (et', e'))"
    by (rule forEach_rel[where R = "\<lambda>s t. env_le (snd s) (snd t)", OF assms])
       (auto simp: env_le_refl dest!: enumStep_env intro: env_le_trans)
  then show ?thesis by simp
qed

lemma enumLoop_frame:
  assumes "forEach (enumStep tn) xs (et, e) = (oc, (et', e'))" and "vn \<notin> fst ` set xs"
  shows "find (\<lambda>v. ev_name v = vn) (et_values et') = find (\<lambda>v. ev_name v = vn) (et_values et)"
proof -
  let ?obs = "\<lambda>t. find (\<lambda>v. ev_name v = vn) (et_values (fst t))"
  have "?obs (et', e') = ?obs (et, e)"
    by (rule forEach_frame[where obs = ?obs, OF assms]) (auto dest: enumStep_frame)
  then show ?thesis by simp
qed

subsection \<open>The entries of \<open>plans\<close>\<close>

lemma mergeEntry_frame:
  assumes "tn' \<noteq> tn" and "mergeEntry (tn', spec) m = (oc, m')"
  shows "map_of (schema m') tn = map_of (schema m) tn"
proof (cases "map_of (schema m) tn'")
  case None
  then show ?thesis using assms by (auto simp: mergeEntry_def)
next
  case (Some node)
  then show ?thesis using assms
    by (cases node)
       (auto simp: mergeEntry_def put_type_def map_of_update_other split: if_splits prod.splits)
qed

lemma mergeEntry_env:
  assumes "mergeEntry x m = (oc, m')"
  shows "env_le (effects m) (effects m')"
proof -
  obtain tn spec where x: "x = (tn, spec)" by (cases x)
  show ?thesis
  proof (cases "map_of (schema m) tn")
    case None
    then show ?thesis using assms x by (auto simp: mergeEntry_def env_le_warn)
  next
    case (Some node)
    then show ?thesis using assms x
      by (cases node)
         (auto simp: mergeEntry_def put_type_def env_le_refl env_le_error
               dest: objectLoop_env inputLoop_env enumLoop_env scalarBody_env
               split: if_splits prod.splits)
  qed
qed

lemma merge_env:
  assumes "forEach mergeEntry plans m = (oc, m')"
  shows "env_le (effects m) (effects m')"
  by (rule forEach_rel[where R = "\<lambda>s t. env_le (effects s) (effects t)", OF assms])
     (auto simp: env_le_refl dest!: mergeEntry_env intro: env_le_trans)

lemma merge_frame:
  assumes "forEach mergeEntry plans m = (oc, m')" and "tn \<notin> fst ` set plans"
  shows "map_of (schema m') tn = map_of (schema m) tn"
  by (rule forEach_frame[where obs = "\<lambda>t. map_of (schema t) tn", OF assms])
     (auto dest: mergeEntry_frame)

lemma merge_focus:
  assumes d: "distinct (map fst plans)" and inx: "(tn, spec) \<in> set plans"
    and run: "mergePlans plans m = (Done, m')"
  shows "\<exists>m1 m2. mergeEntry (tn, spec) m1 = (Done, m2)
           \<and> map_of (schema m1) tn = map_of (schema m) tn
           \<and> map_of (schema m') tn = map_of (schema m2) tn
           \<and> env_le (effects m) (effects m1) \<and> env_le (effects m2) (effects m')"
proof (rule forEach_focus[OF d inx run[unfolded mergePlans_def]])
  fix pre post s1 s2
  assume k1: "tn \<notin> fst ` set pre" and k2: "tn \<notin> fst ` set post"
    and a: "forEach mergeEntry pre m = (Done, s1)"
    and b: "mergeEntry (tn, spec) s1 = (Done, s2)"
    and c: "forEach mergeEntry post s2 = (Done, m')"
  have "map_of (schema s1) tn = map_of (schema m) tn" by (rule merge_frame[OF a k1])
  moreover have "map_of (schema m') tn = map_of (schema s2) tn" by (rule merge_frame[OF c k2])
  moreover have "env_le (effects m) (effects s1)" by (rule merge_env[OF a])
  moreover have "env_le (effects s2) (effects m')" by (rule merge_env[OF c])
  ultimately show ?thesis using b by (intro exI conjI)
qed

lemma merge_reach:
  assumes d: "distinct (map fst plans)" and inx: "(tn, spec) \<in> set plans"
    and run: "mergePlans plans m = (oc, m')"
  shows "(oc \<noteq> Done \<and> map_of (schema m') tn = map_of (schema m) tn
            \<and> env_le (effects m) (effects m'))
       \<or> (\<exists>m1 oc1 m2. mergeEntry (tn, spec) m1 = (oc1, m2)
             \<and> map_of (schema m1) tn = map_of (schema m) tn
             \<and> map_of (schema m') tn = map_of (schema m2) tn
             \<and> env_le (effects m) (effects m1) \<and> env_le (effects m2) (effects m')
             \<and> (oc = Done \<longrightarrow> oc1 = Done))"
proof -
  from split_distinct_key[OF d inx] obtain pre post where xs: "plans = pre @ (tn, spec) # post"
    and k1: "tn \<notin> fst ` set pre" and k2: "tn \<notin> fst ` set post"
    by (elim exE conjE)
  have r: "forEach mergeEntry (pre @ (tn, spec) # post) m = (oc, m')"
    using run xs by (simp add: mergePlans_def)
  from forEach_reach[OF r] show ?thesis
  proof (elim disjE exE conjE)
    fix e
    assume oc: "oc = Threw e" and a: "forEach mergeEntry pre m = (Threw e, m')"
    have "map_of (schema m') tn = map_of (schema m) tn" by (rule merge_frame[OF a k1])
    moreover have "env_le (effects m) (effects m')" by (rule merge_env[OF a])
    ultimately show ?thesis using oc by simp
  next
    fix s1
    assume a: "forEach mergeEntry pre m = (Done, s1)"
      and b: "case mergeEntry (tn, spec) s1 of
                (Done, s2) \<Rightarrow> forEach mergeEntry post s2 = (oc, m')
              | (Threw e, s2) \<Rightarrow> oc = Threw e \<and> m' = s2"
    obtain oc1 s2 where st: "mergeEntry (tn, spec) s1 = (oc1, s2)"
      by (cases "mergeEntry (tn, spec) s1")
    have f1: "map_of (schema s1) tn = map_of (schema m) tn" by (rule merge_frame[OF a k1])
    have l1: "env_le (effects m) (effects s1)" by (rule merge_env[OF a])
    show ?thesis
    proof (cases oc1)
      case Done
      then have c: "forEach mergeEntry post s2 = (oc, m')" using b st by simp
      have "map_of (schema m') tn = map_of (schema s2) tn" by (rule merge_frame[OF c k2])
      moreover have "env_le (effects s2) (effects m')" by (rule merge_env[OF c])
      ultimately have "mergeEntry (tn, spec) s1 = (oc1, s2)
             \<and> map_of (schema s1) tn = map_of (schema m) tn
             \<and> map_of (schema m') tn = map_of (schema s2) tn
             \<and> env_le (effects m) (effects s1) \<and> env_le (effects s2) (effects m')
             \<and> (oc = Done \<longrightarrow> oc1 = Done)"
        using st f1 l1 Done by simp
      then show ?thesis by blast
    next
      case (Threw e)
      then have c: "oc = Threw e" "m' = s2" using b st by simp_all
      have "mergeEntry (tn, spec) s1 = (oc1, s2)
             \<and> map_of (schema s1) tn = map_of (schema m) tn
             \<and> map_of (schema m') tn = map_of (schema s2) tn
             \<and> env_le (effects m) (effects s1) \<and> env_le (effects s2) (effects m')
             \<and> (oc = Done \<longrightarrow> oc1 = Done)"
        using st f1 l1 c by (simp add: env_le_refl)
      then show ?thesis by blast
    qed
  qed
qed

lemma merge_must_throw:
  assumes d: "distinct (map fst plans)" and inx: "(tn, spec) \<in> set plans"
    and throws: "\<And>m1. map_of (schema m1) tn = map_of (schema m) tn
                   \<Longrightarrow> fst (mergeEntry (tn, spec) m1) \<noteq> Done"
  shows "fst (mergePlans plans m) \<noteq> Done"
  unfolding mergePlans_def
  by (rule forEach_must_throw[where obs = "\<lambda>t. map_of (schema t) tn", OF d inx])
     (auto dest: mergeEntry_frame throws)


subsection \<open>What an entry does to a node of each class\<close>

lemma mergeEntry_object:
  assumes "map_of (schema m1) tn = Some (ObjectType ot)" and "mergeEntry (tn, spec) m1 = (oc, m2)"
  shows "(invalid_spec spec \<and> oc = Threw (Error (''Invalid object config for '' @ quoted tn))
            \<and> m2 = m1)
       \<or> (\<not> invalid_spec spec
            \<and> (\<exists>ot2. forEach (objectStep tn) (entries spec) (ot, effects m1) = (oc, (ot2, effects m2))
                  \<and> map_of (schema m2) tn = Some (ObjectType ot2)))"
  using assms
  by (auto simp: mergeEntry_def put_type_def map_of_update_same split: if_splits prod.splits)

lemma mergeEntry_input:
  assumes "map_of (schema m1) tn = Some (InputObjectType iot)"
    and "mergeEntry (tn, spec) m1 = (oc, m2)"
  shows "(invalid_spec spec \<and> oc = Threw (Error (''Invalid input object config for '' @ quoted tn))
            \<and> m2 = m1)
       \<or> (\<not> invalid_spec spec
            \<and> (\<exists>iot2. forEach (inputStep tn) (entries spec) (iot, effects m1) = (oc, (iot2, effects m2))
                  \<and> map_of (schema m2) tn = Some (InputObjectType iot2)))"
  using assms
  by (auto simp: mergeEntry_def put_type_def map_of_update_same split: if_splits prod.splits)

lemma mergeEntry_enum:
  assumes "map_of (schema m1) tn = Some (EnumType et)" and "mergeEntry (tn, spec) m1 = (oc, m2)"
  shows "(invalid_spec spec \<and> oc = Threw (Error (''Invalid enum config for '' @ quoted tn))
            \<and> m2 = m1)
       \<or> (\<not> invalid_spec spec
            \<and> (\<exists>et2. forEach (enumStep tn) (entries spec) (et, effects m1) = (oc, (et2, effects m2))
                  \<and> map_of (schema m2) tn = Some (EnumType et2)))"
  using assms
  by (auto simp: mergeEntry_def put_type_def map_of_update_same split: if_splits prod.splits)

lemma mergeEntry_scalar:
  assumes "map_of (schema m1) tn = Some (ScalarType t)" and "mergeEntry (tn, spec) m1 = (oc, m2)"
  shows "(invalid_spec spec \<and> oc = Threw (Error (''Invalid scalar config for '' @ quoted tn))
            \<and> m2 = m1)
       \<or> (\<not> invalid_spec spec \<and> oc = Done
            \<and> (\<exists>t2. scalarBody spec (t, effects m1) = (t2, effects m2)
                  \<and> map_of (schema m2) tn = Some (ScalarType t2)))"
  using assms
  by (auto simp: mergeEntry_def put_type_def map_of_update_same split: if_splits prod.splits)

lemma enum_value_focus:
  assumes d: "distinct (map fst es)" and inx: "(vn, vspec) \<in> set es"
    and run: "forEach (enumStep tn) es (et, e) = (Done, (et', e'))"
  shows "\<exists>et1 e1 et2 e2. enumStep tn (vn, vspec) (et1, e1) = (Done, (et2, e2))
           \<and> find (\<lambda>v. ev_name v = vn) (et_values et1) = find (\<lambda>v. ev_name v = vn) (et_values et)
           \<and> find (\<lambda>v. ev_name v = vn) (et_values et') = find (\<lambda>v. ev_name v = vn) (et_values et2)"
proof (rule forEach_focus[OF d inx run])
  fix pre post s1 s2
  assume k1: "vn \<notin> fst ` set pre" and k2: "vn \<notin> fst ` set post"
    and a: "forEach (enumStep tn) pre (et, e) = (Done, s1)"
    and b: "enumStep tn (vn, vspec) s1 = (Done, s2)"
    and c: "forEach (enumStep tn) post s2 = (Done, (et', e'))"
  obtain et1 e1 where s1: "s1 = (et1, e1)" by (cases s1)
  obtain et2 e2 where s2: "s2 = (et2, e2)" by (cases s2)
  have "find (\<lambda>v. ev_name v = vn) (et_values et1) = find (\<lambda>v. ev_name v = vn) (et_values et)"
    by (rule enumLoop_frame[OF a[unfolded s1] k1])
  moreover have "find (\<lambda>v. ev_name v = vn) (et_values et') = find (\<lambda>v. ev_name v = vn) (et_values et2)"
    by (rule enumLoop_frame[OF c[unfolded s2] k2])
  ultimately show ?thesis using b[unfolded s1 s2] by (intro exI conjI)
qed

lemma merge_object_field_focus:
  assumes d: "distinct (map fst plans)" and inx: "(tn, spec) \<in> set plans"
    and node: "map_of (schema m) tn = Some (ObjectType ot)"
    and de: "distinct (map fst (entries spec))" and inf: "(fn, fspec) \<in> set (entries spec)"
    and fld: "map_of (ot_fields ot) fn = Some fld" and nu: "\<not> startsWith fn ''__''"
    and run: "mergePlans plans m = (Done, m')"
  shows "\<exists>ot' fld' e1 e2. map_of (schema m') tn = Some (ObjectType ot')
           \<and> map_of (ot_fields ot') fn = Some fld'
           \<and> fieldBody tn fn fspec (fld, e1) = (Done, (fld', e2))
           \<and> env_le (effects m) e1 \<and> env_le e2 (effects m')"
proof -
  from merge_focus[OF d inx run] obtain m1 m2 where
    st: "mergeEntry (tn, spec) m1 = (Done, m2)"
    and f1: "map_of (schema m1) tn = map_of (schema m) tn"
    and f2: "map_of (schema m') tn = map_of (schema m2) tn"
    and l1: "env_le (effects m) (effects m1)" and l2: "env_le (effects m2) (effects m')"
    by (elim exE conjE)
  have n1: "map_of (schema m1) tn = Some (ObjectType ot)" using f1 node by simp
  from mergeEntry_object[OF n1 st] obtain ot2 where
    loop: "forEach (objectStep tn) (entries spec) (ot, effects m1) = (Done, (ot2, effects m2))"
    and n2: "map_of (schema m2) tn = Some (ObjectType ot2)"
    by auto
  from object_field_focus[OF de inf loop fld nu] obtain fld' e1 e2 where
    fb: "fieldBody tn fn fspec (fld, e1) = (Done, (fld', e2))"
    and f3: "map_of (ot_fields ot2) fn = Some fld'"
    and l3: "env_le (effects m1) e1" and l4: "env_le e2 (effects m2)"
    by (elim exE conjE)
  have "env_le (effects m) e1" by (rule env_le_trans[OF l1 l3])
  moreover have "env_le e2 (effects m')" by (rule env_le_trans[OF l4 l2])
  moreover have "map_of (schema m') tn = Some (ObjectType ot2)" using f2 n2 by simp
  ultimately show ?thesis using fb f3 by (intro exI conjI)
qed

lemma get_prop_function_key:
  assumes "typeof (get_prop (JObj a fs) k) = ''function''"
  shows "k \<in> fst ` set fs"
proof (cases "map_of fs k")
  case None
  then show ?thesis using assms by simp
next
  case (Some v)
  then have "(k, v) \<in> set fs" by (rule map_of_SomeD)
  then show ?thesis by force
qed

subsection \<open>\<open>Object.assign\<close> into a new object\<close>

lemma update_append_new: "k \<notin> fst ` set al \<Longrightarrow> AList.update k v al = al @ [(k, v)]"
  by (induction al) auto

lemma assign_fold_distinct:
  assumes "distinct (map fst ps)" and "fst ` set ps \<inter> fst ` set acc = {}"
  shows "foldl (\<lambda>t (k, v). AList.update k v t) acc ps = acc @ ps"
  using assms
proof (induction ps arbitrary: acc)
  case Nil
  then show ?case by simp
next
  case (Cons p ps)
  obtain k v where p: "p = (k, v)" by (cases p)
  have k: "k \<notin> fst ` set acc" using Cons.prems(2) p by auto
  have u: "AList.update k v acc = acc @ [(k, v)]" by (rule update_append_new[OF k])
  have d: "distinct (map fst ps)" using Cons.prems(1) by simp
  have i: "fst ` set ps \<inter> fst ` set (acc @ [(k, v)]) = {}"
    using Cons.prems p by auto
  show ?case using Cons.IH[OF d i] p u by simp
qed

lemma object_assign_copy:
  "distinct (map fst ps) \<Longrightarrow> object_assign [] (JObj c ps) = ps"
  unfolding object_assign_def using assign_fold_distinct[of ps "[]"] by simp

subsection \<open>One argument among the entries of \<open>args\<close>\<close>

lemma argStep_absent:
  assumes "find (\<lambda>a. arg_name a = an) (field_args f) = None"
  shows "argStep tn fn (an, aspec) (f, e) =
     (Done, (f, console_warn
        (quoted ''plans'' @ '' specified configuration for object type '' @ quoted tn
           @ '' field '' @ quoted fn @ '' arg '' @ quoted an
           @ '', but that arg was not present in the type'') e))"
  using assms by (simp add: argStep_def)

lemma argStep_function:
  assumes "find (\<lambda>a. arg_name a = an) (field_args f) = Some arg"
    and "typeof aspec = ''function''"
  shows "argStep tn fn (an, aspec) (f, e) =
     (Threw (Error
        (''Invalid configuration for plans.'' @ tn @ ''.'' @ fn @ ''.args.'' @ an
           @ '' - saw a function, but expected an object with 'inputPlan' (optional) and 'applyPlan' (optional) plans'')),
      (f, e))"
  using assms by (simp add: argStep_def)

lemma argStep_found:
  assumes found: "find (\<lambda>a. arg_name a = an) (field_args f) = Some arg"
    and nf: "typeof aspec \<noteq> ''function''"
    and run: "argStep tn fn (an, aspec) (f, e) = (oc, (f', e'))"
  shows "oc = Done
       \<and> find (\<lambda>a. arg_name a = an) (field_args f')
           = Some (arg\<lparr>arg_extensions :=
                     set_grafast (JObj (next_oid e) (object_assign [] aspec)) (arg_extensions arg)\<rparr>)
       \<and> next_oid e < next_oid e' \<and> console e' = console e"
proof -
  let ?g = "\<lambda>a. a\<lparr>arg_extensions :=
              set_grafast (JObj (next_oid e) (object_assign [] aspec)) (arg_extensions a)\<rparr>"
  have r: "oc = Done \<and> e' = e\<lparr>next_oid := Suc (next_oid e)\<rparr>
      \<and> f' = f\<lparr>field_args := update_first (\<lambda>a. arg_name a = an) ?g (field_args f)\<rparr>"
    using run found nf by (auto simp: argStep_def alloc_def)
  have "find (\<lambda>a. arg_name a = an) (update_first (\<lambda>a. arg_name a = an) ?g (field_args f))
          = map_option ?g (find (\<lambda>a. arg_name a = an) (field_args f))"
    by (rule find_update_first_same) simp
  then show ?thesis using r found by simp
qed

lemma arg_focus:
  assumes d: "distinct (map fst as)" and inx: "(an, aspec) \<in> set as"
    and run: "forEach (argStep tn fn) as (f, e) = (Done, (f', e'))"
  shows "\<exists>fa ea fb eb. argStep tn fn (an, aspec) (fa, ea) = (Done, (fb, eb))
           \<and> find (\<lambda>a. arg_name a = an) (field_args fa) = find (\<lambda>a. arg_name a = an) (field_args f)
           \<and> find (\<lambda>a. arg_name a = an) (field_args f') = find (\<lambda>a. arg_name a = an) (field_args fb)
           \<and> env_le e ea \<and> env_le eb e'"
proof (rule forEach_focus[OF d inx run])
  fix pre post s1 s2
  assume k1: "an \<notin> fst ` set pre" and k2: "an \<notin> fst ` set post"
    and a: "forEach (argStep tn fn) pre (f, e) = (Done, s1)"
    and b: "argStep tn fn (an, aspec) s1 = (Done, s2)"
    and c: "forEach (argStep tn fn) post s2 = (Done, (f', e'))"
  obtain fa ea where s1: "s1 = (fa, ea)" by (cases s1)
  obtain fb eb where s2: "s2 = (fb, eb)" by (cases s2)
  have "find (\<lambda>a. arg_name a = an) (field_args fa) = find (\<lambda>a. arg_name a = an) (field_args f)"
    by (rule argLoop_frame[OF a[unfolded s1] k1])
  moreover have "find (\<lambda>a. arg_name a = an) (field_args f') = find (\<lambda>a. arg_name a = an) (field_args fb)"
    by (rule argLoop_frame[OF c[unfolded s2] k2])
  moreover have "env_le e ea" by (rule argLoop_env[OF a[unfolded s1]])
  moreover have "env_le eb e'" by (rule argLoop_env[OF c[unfolded s2]])
  ultimately show ?thesis using b[unfolded s1 s2] by (intro exI conjI)
qed

lemma argLoop_must_throw:
  assumes d: "distinct (map fst as)" and inx: "(an, aspec) \<in> set as"
    and fn: "typeof aspec = ''function''"
    and found: "find (\<lambda>a. arg_name a = an) (field_args f) = Some arg"
  shows "fst (forEach (argStep tn fn) as (f, e)) \<noteq> Done"
proof (rule forEach_must_throw[where obs = "\<lambda>t. find (\<lambda>a. arg_name a = an) (field_args (fst t))",
      OF d inx])
  fix k' v' t oc1 t'
  assume "k' \<noteq> an" and "argStep tn fn (k', v') t = (oc1, t')"
  then show "find (\<lambda>a. arg_name a = an) (field_args (fst t'))
               = find (\<lambda>a. arg_name a = an) (field_args (fst t))"
    by (cases t, cases t') (auto dest: argStep_frame)
next
  fix t :: "field \<times> env"
  assume "find (\<lambda>a. arg_name a = an) (field_args (fst t))
            = find (\<lambda>a. arg_name a = an) (field_args (fst (f, e)))"
  then have "find (\<lambda>a. arg_name a = an) (field_args (fst t)) = Some arg" using found by simp
  then show "fst (argStep tn fn (an, aspec) t) \<noteq> Done"
    using fn by (cases t) (simp add: argStep_function)
qed

lemma fieldBody_args_loop:
  assumes nf: "typeof fspec \<noteq> ''function''" and nn: "fspec \<noteq> JNull" "fspec \<noteq> JUndefined"
    and args: "get_prop fspec ''args'' = JObj b as"
  shows "\<exists>f4. field_args f4 = field_args fld
           \<and> fieldBody tn fn fspec (fld, e)
                = forEach (argStep tn fn) as (f4, e\<lparr>next_oid := Suc (next_oid e)\<rparr>)"
proof -
  let ?f4 = "fieldHooks fspec (next_oid e)
                (fld\<lparr>field_extensions := set_grafast (JObj (next_oid e) []) (field_extensions fld)\<rparr>)"
  have "fieldBody tn fn fspec (fld, e)
          = forEach (argStep tn fn) as (?f4, e\<lparr>next_oid := Suc (next_oid e)\<rparr>)"
    unfolding fieldBody_struct_unfold[OF nf nn] args by (simp add: entries_def)
  moreover have "field_args ?f4 = field_args fld" by (simp add: fieldHooks_args)
  ultimately show ?thesis by blast
qed

lemma objectLoop_must_throw:
  assumes d: "distinct (map fst es)" and inx: "(fn, fspec) \<in> set es"
    and fld: "map_of (ot_fields ot) fn = Some fld" and nu: "\<not> startsWith fn ''__''"
    and throws: "\<And>e1. fst (fieldBody tn fn fspec (fld, e1)) \<noteq> Done"
  shows "fst (forEach (objectStep tn) es (ot, e)) \<noteq> Done"
proof (rule forEach_must_throw[where obs = "\<lambda>t. map_of (ot_fields (fst t)) fn", OF d inx])
  fix k' v' t oc1 t'
  assume "k' \<noteq> fn" and "objectStep tn (k', v') t = (oc1, t')"
  then show "map_of (ot_fields (fst t')) fn = map_of (ot_fields (fst t)) fn"
    by (cases t, cases t') (auto dest: objectStep_frame)
next
  fix t :: "object_type \<times> env"
  assume o: "map_of (ot_fields (fst t)) fn = map_of (ot_fields (fst (ot, e))) fn"
  obtain ot1 e1 where t: "t = (ot1, e1)" by (cases t)
  have f1: "map_of (ot_fields ot1) fn = Some fld" using o fld t by simp
  obtain oc1 ot2 e2 where st: "objectStep tn (fn, fspec) (ot1, e1) = (oc1, (ot2, e2))"
    by (cases "objectStep tn (fn, fspec) (ot1, e1)") auto
  from objectStep_field[OF nu f1 st] obtain fld' where
    "fieldBody tn fn fspec (fld, e1) = (oc1, (fld', e2))" by (elim exE conjE)
  then have "oc1 \<noteq> Done" using throws[of e1] by auto
  then show "fst (objectStep tn (fn, fspec) t) \<noteq> Done" using st t by simp
qed

lemma merge_object_must_throw:
  assumes d: "distinct (map fst plans)" and inx: "(tn, spec) \<in> set plans"
    and node: "map_of (schema m) tn = Some (ObjectType ot)"
    and throws: "\<And>e1. fst (forEach (objectStep tn) (entries spec) (ot, e1)) \<noteq> Done"
  shows "fst (mergePlans plans m) \<noteq> Done"
proof (rule merge_must_throw[OF d inx])
  fix m1 :: mstate
  assume "map_of (schema m1) tn = map_of (schema m) tn"
  then have n1: "map_of (schema m1) tn = Some (ObjectType ot)" using node by simp
  obtain oc1 m2 where st: "mergeEntry (tn, spec) m1 = (oc1, m2)"
    by (cases "mergeEntry (tn, spec) m1")
  from mergeEntry_object[OF n1 st] have "oc1 \<noteq> Done"
    using throws[of "effects m1"] by auto
  then show "fst (mergeEntry (tn, spec) m1) \<noteq> Done" using st by simp
qed

subsection \<open>Where no error can come from\<close>

lemma argStep_Done:
  assumes "typeof (snd x) \<noteq> ''function''"
  shows "fst (argStep tn fn x s) = Done"
  using assms
  by (cases x, cases s) (simp add: argStep_def alloc_def split: option.splits)

lemma fieldBody_no_error:
  assumes nf: "typeof fspec \<noteq> ''function''" and nn: "fspec \<noteq> JNull" "fspec \<noteq> JUndefined"
    and noarg: "\<forall>x \<in> set (entries (get_prop fspec ''args'')). typeof (snd x) \<noteq> ''function''"
  shows "fst (fieldBody tn fn fspec (fld, e)) = Done"
proof -
  have "fst (forEach (argStep tn fn) (entries (get_prop fspec ''args'')) s) = Done" for s
  proof (rule forEach_all_Done)
    fix x t
    assume "x \<in> set (entries (get_prop fspec ''args''))"
    then have "typeof (snd x) \<noteq> ''function''" using noarg by blast
    then show "fst (argStep tn fn x t) = Done" by (rule argStep_Done)
  qed
  then show ?thesis unfolding fieldBody_struct_unfold[OF nf nn] by simp
qed

lemma mergeEntry_scalar_object:
  assumes "map_of (schema m1) tn = Some (ScalarType t1)"
  shows "fst (mergeEntry (tn, JObj a ps) m1) = Done
       \<and> console (effects (snd (mergeEntry (tn, JObj a ps) m1))) = console (effects m1)"
proof -
  obtain oc1 m2 where st: "mergeEntry (tn, JObj a ps) m1 = (oc1, m2)"
    by (cases "mergeEntry (tn, JObj a ps) m1")
  have v: "\<not> invalid_spec (JObj a ps)" by (simp add: invalid_spec_def)
  from mergeEntry_scalar[OF assms st] v obtain t2 where
    "oc1 = Done" and "scalarBody (JObj a ps) (t1, effects m1) = (t2, effects m2)"
    by auto
  then show ?thesis using st scalarBody_plan[of "JObj a ps" t1 "effects m1" t2 "effects m2"]
    by simp
qed

subsection \<open>A bare function for a field of an input object type\<close>

lemma inputLoop_function_field:
  assumes d: "distinct (map fst es)" and inx: "(fn, fspec) \<in> set es"
    and tf: "typeof fspec = ''function''"
    and fld: "map_of (iot_fields iot) fn = Some fld"
    and run: "forEach (inputStep tn) es (iot, e) = (oc, (iot', e'))"
  shows "oc \<noteq> Done \<and> map_of (iot_fields iot') fn = Some fld"
proof -
  from split_distinct_key[OF d inx] obtain pre post where xs: "es = pre @ (fn, fspec) # post"
    and k1: "fn \<notin> fst ` set pre"
    by (elim exE conjE)
  have r: "forEach (inputStep tn) (pre @ (fn, fspec) # post) (iot, e) = (oc, (iot', e'))"
    using run xs by simp
  from forEach_reach[OF r] show ?thesis
  proof (elim disjE exE conjE)
    fix x
    assume oc: "oc = Threw x" and a: "forEach (inputStep tn) pre (iot, e) = (Threw x, (iot', e'))"
    have "map_of (iot_fields iot') fn = map_of (iot_fields iot) fn"
      by (rule inputLoop_frame[OF a k1])
    then show ?thesis using oc fld by simp
  next
    fix s1
    assume a: "forEach (inputStep tn) pre (iot, e) = (Done, s1)"
      and b: "case inputStep tn (fn, fspec) s1 of
                (Done, s2) \<Rightarrow> forEach (inputStep tn) post s2 = (oc, (iot', e'))
              | (Threw x, s2) \<Rightarrow> oc = Threw x \<and> (iot', e') = s2"
    obtain iot1 e1 where s1: "s1 = (iot1, e1)" by (cases s1)
    have f1: "map_of (iot_fields iot1) fn = Some fld"
      using inputLoop_frame[OF a[unfolded s1] k1] fld by simp
    show ?thesis using b f1 unfolding s1 inputStep_function[OF f1 tf] by simp
  qed
qed

subsection \<open>The classes without a loop, and specs that are no objects\<close>

lemma mergeEntry_other:
  assumes "map_of (schema m1) tn = Some (OtherType shown)"
  shows "mergeEntry (tn, spec) m1
           = (Done, m1\<lparr>effects := console_error (''Unhandled type '' @ shown) (effects m1)\<rparr>)"
  using assms by (simp add: mergeEntry_def)

lemma mergeEntry_abstract_object:
  assumes "map_of (schema m1) tn = Some (InterfaceType t) \<or> map_of (schema m1) tn = Some (UnionType t)"
  shows "fst (mergeEntry (tn, JObj a ps) m1) = Done
       \<and> console (effects (snd (mergeEntry (tn, JObj a ps) m1))) = console (effects m1)"
  using assms by (auto simp: mergeEntry_def invalid_spec_def put_type_def)

lemma objectStep_dunder:
  assumes "startsWith key ''__''" and "key \<noteq> ''__assertStep''"
  shows "objectStep tn (key, v) s =
     (Threw (Error (''Unsupported field name '' @ quoted key
                      @ ''; perhaps you meant '' @ quoted ''__assertStep'' @ ''?'')), s)"
  using assms by (cases s) (simp add: objectStep_def)

lemma objectLoop_dunder_throws:
  assumes d: "distinct (map fst es)" and inx: "(key, v) \<in> set es"
    and sw: "startsWith key ''__''" and ne: "key \<noteq> ''__assertStep''"
  shows "fst (forEach (objectStep tn) es s) \<noteq> Done"
proof (rule forEach_must_throw[where obs = "\<lambda>t. ()", OF d inx])
  fix t :: "object_type \<times> env"
  show "fst (objectStep tn (key, v) t) \<noteq> Done"
    unfolding objectStep_dunder[OF sw ne] by simp
qed simp

lemma inputStep_absent:
  assumes "map_of (iot_fields iot) fn = None"
  shows "inputStep tn (fn, v) (iot, e) =
     (Done, (iot, console_warn
        (quoted ''plans'' @ '' specified configuration for input object type '' @ quoted tn
           @ '' field '' @ quoted fn @ '', but that field was not present in the type'') e))"
  using assms by (simp add: inputStep_def)

lemma enumStep_absent:
  assumes "find (\<lambda>x. ev_name x = vn) (et_values et) = None"
  shows "enumStep tn (vn, v) (et, e) =
     (Done, (et, console_warn
        (quoted ''plans'' @ '' specified configuration for enum type '' @ quoted tn
           @ '' value '' @ quoted vn @ '', but that value was not present in the type'') e))"
  using assms by (simp add: enumStep_def)

lemma mergeEntry_invalid:
  assumes node: "map_of (schema m1) tn = Some node" and rec: "\<forall>s. node \<noteq> OtherType s"
    and bad: "typeof spec \<noteq> ''object'' \<or> spec = JNull"
  shows "mergeEntry (tn, spec) m1
           = (Threw (Error (''Invalid '' @ config_kind node @ '' config for '' @ quoted tn)), m1)"
proof -
  have inv: "invalid_spec spec" using bad by (auto simp: invalid_spec_def)
  show ?thesis using node rec inv by (cases node) (simp_all add: mergeEntry_def)
qed

subsection \<open>The levels of the console lines\<close>

lemma warn_lines_refl: "warn_lines e e"
  by (simp add: warn_lines_def)

lemma warn_lines_trans: "warn_lines a b \<Longrightarrow> warn_lines b c \<Longrightarrow> warn_lines a c"
  unfolding warn_lines_def
proof (elim exE conjE)
  fix ls ms
  assume "console b = console a @ ls" and "console c = console b @ ms"
    and "\<forall>l \<in> set ls. fst l = Warn" and "\<forall>l \<in> set ms. fst l = Warn"
  then have "console c = console a @ (ls @ ms) \<and> (\<forall>l \<in> set (ls @ ms). fst l = Warn)"
    by auto
  then show "\<exists>ks. console c = console a @ ks \<and> (\<forall>l \<in> set ks. fst l = Warn)" by blast
qed

lemma warn_lines_warn: "warn_lines e (console_warn msg e)"
  by (simp add: warn_lines_def console_warn_def)

lemma warn_lines_alloc: "alloc e = (oid, e1) \<Longrightarrow> warn_lines e e1"
  by (auto simp: warn_lines_def alloc_def)

lemma warn_lines_next: "warn_lines e (e\<lparr>next_oid := n\<rparr>)"
  by (simp add: warn_lines_def)

lemma argStep_warn_lines: "argStep tn fn x (fld, e) = (oc, (fld', e')) \<Longrightarrow> warn_lines e e'"
  by (cases x)
     (auto simp: argStep_def warn_lines_warn warn_lines_refl dest: warn_lines_alloc
           split: option.splits if_splits prod.splits)

lemma argLoop_warn_lines:
  assumes "forEach (argStep tn fn) xs (fld, e) = (oc, (fld', e'))"
  shows "warn_lines e e'"
proof -
  have "warn_lines (snd (fld, e)) (snd (fld', e'))"
    by (rule forEach_rel[where R = "\<lambda>s t. warn_lines (snd s) (snd t)", OF assms])
       (auto simp: warn_lines_refl dest!: argStep_warn_lines intro: warn_lines_trans)
  then show ?thesis by simp
qed

lemma fieldBody_warn_lines:
  assumes "fieldBody tn fn spec (fld, e) = (oc, (fld', e'))"
  shows "warn_lines e e'"
proof -
  let ?e1 = "e\<lparr>next_oid := Suc (next_oid e)\<rparr>"
  have a: "warn_lines e ?e1" by (rule warn_lines_next)
  show ?thesis
  proof (cases "typeof spec = ''function''")
    case True
    then have "e' = ?e1" using assms by (simp add: fieldBody_function)
    then show ?thesis using a by simp
  next
    case False
    show ?thesis
    proof (cases "spec = JNull \<or> spec = JUndefined")
      case True
      then have "e' = ?e1" using assms by (simp add: fieldBody_null)
      then show ?thesis using a by simp
    next
      case nn: False
      note u = fieldBody_struct_unfold[of spec tn fn fld e, OF False]
      show ?thesis
      proof (cases "typeof (get_prop spec ''args'') = ''object''
                \<and> get_prop spec ''args'' \<noteq> JNull \<and> get_prop spec ''args'' \<noteq> JUndefined")
        case True
        then have "forEach (argStep tn fn) (entries (get_prop spec ''args''))
            (fieldHooks spec (next_oid e)
               (fld\<lparr>field_extensions := set_grafast (JObj (next_oid e) []) (field_extensions fld)\<rparr>),
             ?e1) = (oc, (fld', e'))"
          using assms nn u by simp
        then have "warn_lines ?e1 e'" by (rule argLoop_warn_lines)
        then show ?thesis using a by (blast intro: warn_lines_trans)
      next
        case na: False
        then have "e' = ?e1" using assms nn u by auto
        then show ?thesis using a by simp
      qed
    qed
  qed
qed

lemma objectStep_warn_lines:
  assumes "objectStep tn x (ot, e) = (oc, (ot', e'))"
  shows "warn_lines e e'"
  using assms
  by (cases x)
     (auto simp: objectStep_def warn_lines_warn warn_lines_refl
           dest: warn_lines_alloc fieldBody_warn_lines
           split: option.splits if_splits prod.splits)

lemma objectLoop_warn_lines:
  assumes "forEach (objectStep tn) xs (ot, e) = (oc, (ot', e'))"
  shows "warn_lines e e'"
proof -
  have "warn_lines (snd (ot, e)) (snd (ot', e'))"
    by (rule forEach_rel[where R = "\<lambda>s t. warn_lines (snd s) (snd t)", OF assms])
       (auto simp: warn_lines_refl dest!: objectStep_warn_lines intro: warn_lines_trans)
  then show ?thesis by simp
qed

lemma inputStep_warn_lines:
  assumes "inputStep tn x (iot, e) = (oc, (iot', e'))"
  shows "warn_lines e e'"
  using assms
  by (cases x)
     (auto simp: inputStep_def warn_lines_warn warn_lines_refl dest: warn_lines_alloc
           split: option.splits if_splits prod.splits)

lemma inputLoop_warn_lines:
  assumes "forEach (inputStep tn) xs (iot, e) = (oc, (iot', e'))"
  shows "warn_lines e e'"
proof -
  have "warn_lines (snd (iot, e)) (snd (iot', e'))"
    by (rule forEach_rel[where R = "\<lambda>s t. warn_lines (snd s) (snd t)", OF assms])
       (auto simp: warn_lines_refl dest!: inputStep_warn_lines intro: warn_lines_trans)
  then show ?thesis by simp
qed

lemma enumStep_warn_lines:
  assumes "enumStep tn x (et, e) = (oc, (et', e'))"
  shows "warn_lines e e'"
  using assms
  by (cases x)
     (auto simp: enumStep_def warn_lines_warn warn_lines_refl dest: warn_lines_alloc
           split: option.splits if_splits prod.splits)

lemma enumLoop_warn_lines:
  assumes "forEach (enumStep tn) xs (et, e) = (oc, (et', e'))"
  shows "warn_lines e e'"
proof -
  have "warn_lines (snd (et, e)) (snd (et', e'))"
    by (rule forEach_rel[where R = "\<lambda>s t. warn_lines (snd s) (snd t)", OF assms])
       (auto simp: warn_lines_refl dest!: enumStep_warn_lines intro: warn_lines_trans)
  then show ?thesis by simp
qed

lemma scalarBody_warn_lines:
  assumes "scalarBody spec (t, e) = (t', e')"
  shows "warn_lines e e'"
  using scalarBody_plan[OF assms] by (simp add: warn_lines_def)

lemma warn_lines_unhandled: "warn_lines e e' \<Longrightarrow> error_lines_unhandled e e'"
  by (auto simp: warn_lines_def error_lines_unhandled_def)

lemma error_lines_unhandled_refl: "error_lines_unhandled e e"
  by (simp add: error_lines_unhandled_def)

lemma error_lines_unhandled_trans:
  assumes "error_lines_unhandled a b" and "error_lines_unhandled b c"
  shows "error_lines_unhandled a c"
proof -
  let ?ok = "\<lambda>l. fst l = Err \<longrightarrow> (\<exists>shown. snd l = ''Unhandled type '' @ shown)"
  from assms obtain ls ms where "console b = console a @ ls" and "console c = console b @ ms"
    and "\<forall>l \<in> set ls. ?ok l" and "\<forall>l \<in> set ms. ?ok l"
    unfolding error_lines_unhandled_def by (elim exE conjE)
  then have "console c = console a @ (ls @ ms) \<and> (\<forall>l \<in> set (ls @ ms). ?ok l)"
    by auto
  then show ?thesis unfolding error_lines_unhandled_def by blast
qed

lemma mergeEntry_levels:
  assumes "mergeEntry x m = (oc, m')"
  shows "error_lines_unhandled (effects m) (effects m')"
proof -
  obtain tn spec where x: "x = (tn, spec)" by (cases x)
  show ?thesis
  proof (cases "map_of (schema m) tn")
    case None
    then have "effects m' = console_warn
        (quoted ''plans'' @ '' specified configuration for type '' @ quoted tn
           @ '', but that type was not present in the schema'') (effects m)"
      using assms x by (auto simp: mergeEntry_def)
    then show ?thesis by (simp add: warn_lines_unhandled warn_lines_warn)
  next
    case (Some node)
    show ?thesis
    proof (cases node)
      case (OtherType shown)
      then have "effects m' = console_error (''Unhandled type '' @ shown) (effects m)"
        using assms x Some by (auto simp: mergeEntry_other)
      then show ?thesis by (simp add: error_lines_unhandled_def console_error_def)
    next
      case (ObjectType ot)
      then have "warn_lines (effects m) (effects m')"
        using assms x Some
        by (auto simp: mergeEntry_def put_type_def warn_lines_refl
              dest!: objectLoop_warn_lines split: if_splits prod.splits)
      then show ?thesis by (rule warn_lines_unhandled)
    next
      case (InputObjectType iot)
      then have "warn_lines (effects m) (effects m')"
        using assms x Some
        by (auto simp: mergeEntry_def put_type_def warn_lines_refl
              dest!: inputLoop_warn_lines split: if_splits prod.splits)
      then show ?thesis by (rule warn_lines_unhandled)
    next
      case (InterfaceType t)
      then have "warn_lines (effects m) (effects m')"
        using assms x Some
        by (auto simp: mergeEntry_def put_type_def warn_lines_refl split: if_splits)
      then show ?thesis by (rule warn_lines_unhandled)
    next
      case (UnionType t)
      then have "warn_lines (effects m) (effects m')"
        using assms x Some
        by (auto simp: mergeEntry_def put_type_def warn_lines_refl split: if_splits)
      then show ?thesis by (rule warn_lines_unhandled)
    next
      case (ScalarType t)
      then have "warn_lines (effects m) (effects m')"
        using assms x Some
        by (auto simp: mergeEntry_def put_type_def warn_lines_refl
              dest!: scalarBody_warn_lines split: if_splits prod.splits)
      then show ?thesis by (rule warn_lines_unhandled)
    next
      case (EnumType et)
      then have "warn_lines (effects m) (effects m')"
        using assms x Some
        by (auto simp: mergeEntry_def put_type_def warn_lines_refl
              dest!: enumLoop_warn_lines split: if_splits prod.splits)
      then show ?thesis by (rule warn_lines_unhandled)
    qed
  qed
qed

lemma merge_levels:
  assumes "forEach mergeEntry plans m = (oc, m')"
  shows "error_lines_unhandled (effects m) (effects m')"
  by (rule forEach_rel[where R = "\<lambda>s t. error_lines_unhandled (effects s) (effects t)", OF assms])
     (auto simp: error_lines_unhandled_refl dest!: mergeEntry_levels
           intro: error_lines_unhandled_trans)


section \<open>The claims\<close>

text \<open>
  The theorems are about \<open>mergePlans\<close>, the loop of \<open>makeGrafastSchema\<close>, from any
  graph and any state of the effects.  An object has each key once, so the lists that
  stand for \<open>Object.entries\<close> of the configuration map, of a type spec and of an
  \<open>args\<close> mapping are taken with distinct keys.  A merge that completes has the
  outcome \<open>Done\<close>; the state beside a \<open>Threw\<close> is the graph as the throw leaves it.
\<close>

text \<open>
  C1.  An enum type of the graph, and in its spec a value that the type has, configured
  by a structured object: after a merge that completes, that value's internal
  representation is the spec's \<open>value\<close> when the key \<open>value\<close> is in the spec object,
  whatever it holds (a falsy \<open>0\<close> as well), and is what it was before the merge when
  the key is absent.
\<close>

theorem enum_value_replaced_iff_value_key:
  assumes d: "distinct (map fst plans)" and inx: "(typeName, spec) \<in> set plans"
    and node: "map_of (schema m) typeName = Some (EnumType et)"
    and de: "distinct (map fst (entries spec))"
    and inv: "(valueName, JObj a vs) \<in> set (entries spec)"
    and found: "find (\<lambda>v. ev_name v = valueName) (et_values et) = Some ev"
    and run: "mergePlans plans m = (Done, m')"
  shows "\<exists>et' ev'. map_of (schema m') typeName = Some (EnumType et')
           \<and> find (\<lambda>v. ev_name v = valueName) (et_values et') = Some ev'
           \<and> ev_value ev' = (if ''value'' \<in> fst ` set vs then get_prop (JObj a vs) ''value''
                              else ev_value ev)"
proof -
  from merge_focus[OF d inx run] obtain m1 m2 where
    st: "mergeEntry (typeName, spec) m1 = (Done, m2)"
    and f1: "map_of (schema m1) typeName = map_of (schema m) typeName"
    and f2: "map_of (schema m') typeName = map_of (schema m2) typeName"
    by (elim exE conjE)
  have n1: "map_of (schema m1) typeName = Some (EnumType et)" using f1 node by simp
  from mergeEntry_enum[OF n1 st] obtain et2 where
    loop: "forEach (enumStep typeName) (entries spec) (et, effects m1) = (Done, (et2, effects m2))"
    and n2: "map_of (schema m2) typeName = Some (EnumType et2)"
    by auto
  from enum_value_focus[OF de inv loop] obtain eta e1 etb e2 where
    step: "enumStep typeName (valueName, JObj a vs) (eta, e1) = (Done, (etb, e2))"
    and g1: "find (\<lambda>v. ev_name v = valueName) (et_values eta)
               = find (\<lambda>v. ev_name v = valueName) (et_values et)"
    and g2: "find (\<lambda>v. ev_name v = valueName) (et_values et2)
               = find (\<lambda>v. ev_name v = valueName) (et_values etb)"
    by (elim exE conjE)
  have fa: "find (\<lambda>v. ev_name v = valueName) (et_values eta) = Some ev" using g1 found by simp
  have "\<exists>ev'. find (\<lambda>v. ev_name v = valueName) (et_values etb) = Some ev'
           \<and> ev_value ev' = (if has_prop ''value'' (JObj a vs) then get_prop (JObj a vs) ''value''
                              else ev_value ev)"
    using enumStep_object[OF fa _ _ _ step] by simp
  then obtain ev' where "find (\<lambda>v. ev_name v = valueName) (et_values et2) = Some ev'"
    and "ev_value ev' = (if ''value'' \<in> fst ` set vs then get_prop (JObj a vs) ''value''
                         else ev_value ev)"
    using g2 by auto
  then show ?thesis using n2 f2 by auto
qed

theorem enum_value_replaced_iff_value_key_witness:
  "distinct (map fst ex_enum_plans)
   \<and> fst (mergePlans ex_enum_plans ex_state) = Done
   \<and> (\<exists>et' ev'. map_of (schema (snd (mergePlans ex_enum_plans ex_state))) ''Color''
                    = Some (EnumType et')
         \<and> find (\<lambda>v. ev_name v = ''RED'') (et_values et') = Some ev' \<and> ev_value ev' = JNum 0)
   \<and> (\<exists>et' ev'. map_of (schema (snd (mergePlans ex_enum_plans ex_state))) ''Color''
                    = Some (EnumType et')
         \<and> find (\<lambda>v. ev_name v = ''GREEN'') (et_values et') = Some ev'
         \<and> ev_value ev' = JStr ''GREEN'')"
proof -
  let ?spec = "JObj 1 [(''RED'', JObj 2 [(''value'', JNum 0)]),
                       (''GREEN'', JObj 3 [(''applyPlan'', JFun 4)])]"
  have d: "distinct (map fst ex_enum_plans)" by (simp add: ex_enum_plans_def)
  have i: "(''Color'', ?spec) \<in> set ex_enum_plans" by (simp add: ex_enum_plans_def)
  have n: "map_of (schema ex_state) ''Color'' = Some (EnumType ex_color)"
    by (simp add: ex_state_def ex_graph_def)
  have de: "distinct (map fst (entries ?spec))" by (simp add: entries_def)
  have i1: "(''RED'', JObj 2 [(''value'', JNum 0)]) \<in> set (entries ?spec)"
    by (simp add: entries_def)
  have i2: "(''GREEN'', JObj 3 [(''applyPlan'', JFun 4)]) \<in> set (entries ?spec)"
    by (simp add: entries_def)
  have f1: "find (\<lambda>v. ev_name v = ''RED'') (et_values ex_color)
              = Some \<lparr>ev_name = ''RED'', ev_value = JStr ''RED'', ev_extensions = []\<rparr>"
    by (simp add: ex_color_def)
  have f2: "find (\<lambda>v. ev_name v = ''GREEN'') (et_values ex_color)
              = Some \<lparr>ev_name = ''GREEN'', ev_value = JStr ''GREEN'', ev_extensions = []\<rparr>"
    by (simp add: ex_color_def)
  have dn: "fst (mergePlans ex_enum_plans ex_state) = Done"
    by (simp add: mergePlans_def ex_enum_plans_def ex_state_def ex_graph_def mergeEntry_def
          invalid_spec_def entries_def enumStep_def ex_color_def write_value_def put_type_def
          alloc_def)
  then have r: "mergePlans ex_enum_plans ex_state = (Done, snd (mergePlans ex_enum_plans ex_state))"
    by (metis prod.collapse)
  show ?thesis
    using enum_value_replaced_iff_value_key[OF d i n de i1 f1 r]
      enum_value_replaced_iff_value_key[OF d i n de i2 f2 r] d dn
    by simp
qed

text \<open>
  C2, as the code has it.  The claim as stated fails: a merge that fails at a
  bare-function field of an input object type has already written the fields that the
  same spec configures before it.
\<close>

theorem failing_input_merge_has_written_earlier_field:
  "fst (mergePlans ex_input_plans ex_state)
     = Threw (Error (''Expected input object type '' @ quoted ''In'' @ '' field '' @ quoted ''b''
         @ '' to be an object, but found a function. We don't know if this should be the 'inputPlan' or 'applyPlan' - please supply an object.''))
   \<and> map_of (schema ex_state) ''In''
       = Some (InputObjectType \<lparr>iot_fields =
           [(''a'', \<lparr>input_field_extensions = []\<rparr>), (''b'', \<lparr>input_field_extensions = []\<rparr>)]\<rparr>)
   \<and> map_of (schema (snd (mergePlans ex_input_plans ex_state))) ''In''
       = Some (InputObjectType \<lparr>iot_fields =
           [(''a'', \<lparr>input_field_extensions = [(''grafast'', JObj 100 [(''inputPlan'', JFun 3)])]\<rparr>),
            (''b'', \<lparr>input_field_extensions = []\<rparr>)]\<rparr>)"
  by (simp add: mergePlans_def ex_input_plans_def ex_state_def ex_graph_def ex_in_def
        mergeEntry_def invalid_spec_def entries_def inputStep_def put_type_def alloc_def
        set_grafast_def object_assign_def)

text \<open>
  C2, amended.  An input object type of the graph, and in its spec a field that the
  type has, configured by a bare function: the merge does not complete; the entry,
  at whatever state it is reached, throws the error whose message names the type and
  the field and writes nothing; and in the graph as the merge leaves it that field is
  the field of before.  (The fields configured before it have been written by then.)
\<close>

theorem input_bare_function_raises:
  assumes d: "distinct (map fst plans)" and inx: "(typeName, spec) \<in> set plans"
    and node: "map_of (schema m) typeName = Some (InputObjectType iot)"
    and de: "distinct (map fst (entries spec))"
    and inf: "(fieldName, fieldSpec) \<in> set (entries spec)"
    and tf: "typeof fieldSpec = ''function''"
    and fld: "map_of (iot_fields iot) fieldName = Some fld"
    and run: "mergePlans plans m = (oc, m')"
  shows "oc \<noteq> Done
       \<and> (\<forall>iot1 e1 fld1. map_of (iot_fields iot1) fieldName = Some fld1 \<longrightarrow>
            inputStep typeName (fieldName, fieldSpec) (iot1, e1) =
              (Threw (Error
                 (''Expected input object type '' @ quoted typeName @ '' field ''
                    @ quoted fieldName
                    @ '' to be an object, but found a function. We don't know if this should be the 'inputPlan' or 'applyPlan' - please supply an object.'')),
               (iot1, e1)))
       \<and> (\<exists>iot'. map_of (schema m') typeName = Some (InputObjectType iot')
             \<and> map_of (iot_fields iot') fieldName = Some fld)"
proof -
  have step: "\<forall>iot1 e1 fld1. map_of (iot_fields iot1) fieldName = Some fld1 \<longrightarrow>
            inputStep typeName (fieldName, fieldSpec) (iot1, e1) =
              (Threw (Error
                 (''Expected input object type '' @ quoted typeName @ '' field ''
                    @ quoted fieldName
                    @ '' to be an object, but found a function. We don't know if this should be the 'inputPlan' or 'applyPlan' - please supply an object.'')),
               (iot1, e1))"
    using tf by (simp add: inputStep_function)
  have throws: "fst (mergeEntry (typeName, spec) m1) \<noteq> Done"
    if n1: "map_of (schema m1) typeName = map_of (schema m) typeName" for m1 :: mstate
  proof -
    obtain oc1 m2 where st: "mergeEntry (typeName, spec) m1 = (oc1, m2)"
      by (cases "mergeEntry (typeName, spec) m1")
    have n: "map_of (schema m1) typeName = Some (InputObjectType iot)" using n1 node by simp
    from mergeEntry_input[OF n st] have "oc1 \<noteq> Done"
    proof (elim disjE exE conjE)
      assume "oc1 = Threw (Error (''Invalid input object config for '' @ quoted typeName))"
      then show ?thesis by simp
    next
      fix iot2
      assume "forEach (inputStep typeName) (entries spec) (iot, effects m1)
                = (oc1, (iot2, effects m2))"
      from inputLoop_function_field[OF de inf tf fld this] show ?thesis by simp
    qed
    then show ?thesis using st by simp
  qed
  have "fst (mergePlans plans m) \<noteq> Done"
    by (rule merge_must_throw[OF d inx]) (rule throws)
  then have nd: "oc \<noteq> Done" using run by simp
  have keep: "\<exists>iot'. map_of (schema m') typeName = Some (InputObjectType iot')
             \<and> map_of (iot_fields iot') fieldName = Some fld"
    using merge_reach[OF d inx run]
  proof (elim disjE exE conjE)
    assume "map_of (schema m') typeName = map_of (schema m) typeName"
    then show ?thesis using node fld by simp
  next
    fix m1 oc1 m2
    assume st: "mergeEntry (typeName, spec) m1 = (oc1, m2)"
      and f1: "map_of (schema m1) typeName = map_of (schema m) typeName"
      and f2: "map_of (schema m') typeName = map_of (schema m2) typeName"
    have n: "map_of (schema m1) typeName = Some (InputObjectType iot)" using f1 node by simp
    from mergeEntry_input[OF n st] show ?thesis
    proof (elim disjE exE conjE)
      assume "m2 = m1"
      then show ?thesis using f2 n fld by simp
    next
      fix iot2
      assume lp: "forEach (inputStep typeName) (entries spec) (iot, effects m1)
                    = (oc1, (iot2, effects m2))"
        and n2: "map_of (schema m2) typeName = Some (InputObjectType iot2)"
      have "map_of (iot_fields iot2) fieldName = Some fld"
        using inputLoop_function_field[OF de inf tf fld lp] by simp
      then show ?thesis using f2 n2 by simp
    qed
  qed
  show ?thesis using nd step keep by (intro conjI)
qed

theorem input_bare_function_raises_witness:
  "distinct (map fst ex_input_plans)
   \<and> typeof (JFun 4) = ''function''
   \<and> map_of (iot_fields ex_in) ''b'' = Some \<lparr>input_field_extensions = []\<rparr>
   \<and> fst (mergePlans ex_input_plans ex_state) \<noteq> Done
   \<and> inputStep ''In'' (''b'', JFun 4) (ex_in, effects ex_state)
       = (Threw (Error (''Expected input object type '' @ quoted ''In'' @ '' field '' @ quoted ''b''
            @ '' to be an object, but found a function. We don't know if this should be the 'inputPlan' or 'applyPlan' - please supply an object.'')),
          (ex_in, effects ex_state))
   \<and> (\<exists>iot'. map_of (schema (snd (mergePlans ex_input_plans ex_state))) ''In''
                = Some (InputObjectType iot')
          \<and> map_of (iot_fields iot') ''b'' = Some \<lparr>input_field_extensions = []\<rparr>)"
proof -
  let ?es = "[(''a'', JObj 2 [(''inputPlan'', JFun 3)]), (''b'', JFun 4)]"
  have d: "distinct (map fst ex_input_plans)" by (simp add: ex_input_plans_def)
  have i: "(''In'', JObj 1 ?es) \<in> set ex_input_plans" by (simp add: ex_input_plans_def)
  have n: "map_of (schema ex_state) ''In'' = Some (InputObjectType ex_in)"
    by (simp add: ex_state_def ex_graph_def)
  have de: "distinct (map fst (entries (JObj 1 ?es)))" by (simp add: entries_def)
  have inf: "(''b'', JFun 4) \<in> set (entries (JObj 1 ?es))" by (simp add: entries_def)
  have tf: "typeof (JFun 4) = ''function''" by simp
  have f: "map_of (iot_fields ex_in) ''b'' = Some \<lparr>input_field_extensions = []\<rparr>"
    by (simp add: ex_in_def)
  have r: "mergePlans ex_input_plans ex_state
             = (fst (mergePlans ex_input_plans ex_state), snd (mergePlans ex_input_plans ex_state))"
    by simp
  note A = input_bare_function_raises[OF d i n de inf tf f r]
  have a1: "fst (mergePlans ex_input_plans ex_state) \<noteq> Done" using A by blast
  have a2: "inputStep ''In'' (''b'', JFun 4) (ex_in, effects ex_state)
       = (Threw (Error (''Expected input object type '' @ quoted ''In'' @ '' field '' @ quoted ''b''
            @ '' to be an object, but found a function. We don't know if this should be the 'inputPlan' or 'applyPlan' - please supply an object.'')),
          (ex_in, effects ex_state))"
    using A f by blast
  have a3: "\<exists>iot'. map_of (schema (snd (mergePlans ex_input_plans ex_state))) ''In''
                = Some (InputObjectType iot')
          \<and> map_of (iot_fields iot') ''b'' = Some \<lparr>input_field_extensions = []\<rparr>"
    using A by blast
  show ?thesis using d tf f a1 a2 a3 by (intro conjI)
qed

text \<open>
  C3, as the code has it.  The claim as stated fails: an entry for a node of no
  recognized class raises nothing; the merge writes one line with \<open>console.error\<close> and
  goes on with the next entry (here to completion, having handled \<open>Color\<close>).
\<close>

theorem unrecognized_kind_is_not_fatal:
  "mergePlans ex_odd_plans ex_state
     = (Done,
        \<lparr>schema =
           [(''Query'', ObjectType ex_query),
            (''Color'', EnumType \<lparr>et_values =
               [\<lparr>ev_name = ''RED'', ev_value = JNum 1, ev_extensions = []\<rparr>,
                \<lparr>ev_name = ''GREEN'', ev_value = JStr ''GREEN'', ev_extensions = []\<rparr>]\<rparr>),
            (''In'', InputObjectType ex_in), (''Node'', InterfaceType \<lparr>resolveType = JUndefined\<rparr>),
            (''Date'', ScalarType ex_date), (''Odd'', OtherType ''Odd'')],
         effects = \<lparr>console = [(Err, ''Unhandled type Odd'')], next_oid = 100\<rparr>\<rparr>)"
  by (simp add: mergePlans_def ex_odd_plans_def ex_state_def ex_graph_def ex_color_def
        mergeEntry_def invalid_spec_def entries_def enumStep_def write_value_def put_type_def
        console_error_def)

text \<open>
  C3, amended.  An entry whose node is of none of the recognized classes: the entry
  raises nothing and writes nothing to the graph; it writes the line
  \<open>Unhandled type ...\<close> at the error level of the console; after the merge, however
  it ends, the node is as it was, and when the merge completes the line is on the
  console.  The error level is kept for these lines: every line of that level that a
  merge writes is one of them, the not-found warnings being written at the warning
  level.
\<close>

theorem unrecognized_kind_is_logged_as_error:
  assumes d: "distinct (map fst plans)" and inx: "(typeName, spec) \<in> set plans"
    and node: "map_of (schema m) typeName = Some (OtherType shown)"
    and run: "mergePlans plans m = (oc, m')"
  shows "(\<forall>m1. map_of (schema m1) typeName = Some (OtherType shown) \<longrightarrow>
            mergeEntry (typeName, spec) m1 =
              (Done, m1\<lparr>effects := console_error (''Unhandled type '' @ shown) (effects m1)\<rparr>))
       \<and> map_of (schema m') typeName = Some (OtherType shown)
       \<and> (oc = Done \<longrightarrow> (Err, ''Unhandled type '' @ shown) \<in> set (console (effects m')))
       \<and> error_lines_unhandled (effects m) (effects m')"
proof -
  have step: "\<forall>m1. map_of (schema m1) typeName = Some (OtherType shown) \<longrightarrow>
            mergeEntry (typeName, spec) m1 =
              (Done, m1\<lparr>effects := console_error (''Unhandled type '' @ shown) (effects m1)\<rparr>)"
    by (simp add: mergeEntry_other)
  have lv: "error_lines_unhandled (effects m) (effects m')"
    by (rule merge_levels[OF run[unfolded mergePlans_def]])
  have rest: "map_of (schema m') typeName = Some (OtherType shown)
       \<and> (oc = Done \<longrightarrow> (Err, ''Unhandled type '' @ shown) \<in> set (console (effects m')))"
    using merge_reach[OF d inx run]
  proof (elim disjE exE conjE)
    assume "oc \<noteq> Done" and "map_of (schema m') typeName = map_of (schema m) typeName"
    then show ?thesis using node by simp
  next
    fix m1 oc1 m2
    assume st: "mergeEntry (typeName, spec) m1 = (oc1, m2)"
      and f1: "map_of (schema m1) typeName = map_of (schema m) typeName"
      and f2: "map_of (schema m') typeName = map_of (schema m2) typeName"
      and le: "env_le (effects m2) (effects m')"
    have n1: "map_of (schema m1) typeName = Some (OtherType shown)" using f1 node by simp
    have m2: "m2 = m1\<lparr>effects := console_error (''Unhandled type '' @ shown) (effects m1)\<rparr>"
      using mergeEntry_other[OF n1, of spec] st by simp
    have "(Err, ''Unhandled type '' @ shown) \<in> set (console (effects m2))"
      unfolding m2 by (simp add: console_error_def)
    then have "(Err, ''Unhandled type '' @ shown) \<in> set (console (effects m'))"
      by (rule env_le_console[OF le])
    moreover have "map_of (schema m') typeName = Some (OtherType shown)" using f2 n1 m2 by simp
    ultimately show ?thesis by simp
  qed
  show ?thesis using step rest lv by (intro conjI) simp_all
qed

theorem unrecognized_kind_is_logged_as_error_witness:
  "distinct (map fst ex_odd_plans)
   \<and> map_of (schema ex_state) ''Odd'' = Some (OtherType ''Odd'')
   \<and> fst (mergePlans ex_odd_plans ex_state) = Done
   \<and> fst (mergeEntry (''Odd'', JObj 1 []) ex_state) = Done
   \<and> map_of (schema (snd (mergePlans ex_odd_plans ex_state))) ''Odd'' = Some (OtherType ''Odd'')
   \<and> (Err, ''Unhandled type Odd'') \<in> set (console (effects (snd (mergePlans ex_odd_plans ex_state))))"
proof -
  have d: "distinct (map fst ex_odd_plans)" by (simp add: ex_odd_plans_def)
  have i: "(''Odd'', JObj 1 []) \<in> set ex_odd_plans" by (simp add: ex_odd_plans_def)
  have n: "map_of (schema ex_state) ''Odd'' = Some (OtherType ''Odd'')"
    by (simp add: ex_state_def ex_graph_def)
  have dn: "fst (mergePlans ex_odd_plans ex_state) = Done"
    by (simp add: mergePlans_def ex_odd_plans_def ex_state_def ex_graph_def ex_color_def
          mergeEntry_def invalid_spec_def entries_def enumStep_def write_value_def put_type_def)
  have r: "mergePlans ex_odd_plans ex_state
             = (fst (mergePlans ex_odd_plans ex_state), snd (mergePlans ex_odd_plans ex_state))"
    by simp
  note A = unrecognized_kind_is_logged_as_error[OF d i n r]
  have a1: "fst (mergeEntry (''Odd'', JObj 1 []) ex_state) = Done" using A n by simp
  have a2: "map_of (schema (snd (mergePlans ex_odd_plans ex_state))) ''Odd''
              = Some (OtherType ''Odd'')"
    using A by blast
  have a3: "(Err, ''Unhandled type '' @ ''Odd'')
              \<in> set (console (effects (snd (mergePlans ex_odd_plans ex_state))))"
    using A dn by blast
  show ?thesis using d n dn a1 a2 a3 by simp
qed

text \<open>
  C4, as the code has it.  The claim as stated fails for four of the five classes: a
  key that starts with \<open>__\<close> in the spec of a scalar, an interface, an input object
  type or an enum raises nothing.  The merge completes, with the two not-found
  warnings of the input object type and of the enum, and the graph as it was.
\<close>

theorem dunder_keys_pass_outside_object_types:
  "mergePlans ex_dunder_plans ex_state
     = (Done,
        \<lparr>schema = ex_graph,
         effects = \<lparr>console =
           [(Warn, quoted ''plans'' @ '' specified configuration for input object type ''
                     @ quoted ''In'' @ '' field '' @ quoted ''__x''
                     @ '', but that field was not present in the type''),
            (Warn, quoted ''plans'' @ '' specified configuration for enum type ''
                     @ quoted ''Color'' @ '' value '' @ quoted ''__y''
                     @ '', but that value was not present in the type'')],
           next_oid = 100\<rparr>\<rparr>)"
  by (simp add: mergePlans_def ex_dunder_plans_def ex_state_def ex_graph_def ex_color_def
        ex_in_def ex_date_def mergeEntry_def invalid_spec_def entries_def enumStep_def
        inputStep_def scalarBody_def polyBody_def put_type_def console_warn_def quoted_def)

text \<open>
  C4, amended.  In the spec of an object type, a key that starts with \<open>__\<close> and is not
  \<open>__assertStep\<close> makes the merge fail: the entry throws the error
  \<open>Unsupported field name\<close> that names the key, whatever the state, and writes nothing.
  The other classes have no such check: the entry of a scalar, an interface or a union
  whose spec is an object raises nothing and writes no line, whatever the keys; and in
  the spec of an input object type or of an enum the key is a field or value name like
  any other, which gives the not-found warning when the type has none of that name.
\<close>

theorem dunder_key_rejected_for_object_types:
  assumes d: "distinct (map fst plans)" and inx: "(typeName, JObj a ps) \<in> set plans"
    and de: "distinct (map fst ps)" and ink: "(key, v) \<in> set ps"
    and sw: "startsWith key ''__''" and ne: "key \<noteq> ''__assertStep''"
    and run: "mergePlans plans m = (oc, m')"
  shows "(\<forall>ot. map_of (schema m) typeName = Some (ObjectType ot) \<longrightarrow> oc \<noteq> Done)
       \<and> (\<forall>s. objectStep typeName (key, v) s =
                 (Threw (Error (''Unsupported field name '' @ quoted key
                                  @ ''; perhaps you meant '' @ quoted ''__assertStep'' @ ''?'')), s))
       \<and> (\<forall>m1 t. map_of (schema m1) typeName = Some (ScalarType t) \<longrightarrow>
            fst (mergeEntry (typeName, JObj a ps) m1) = Done
            \<and> console (effects (snd (mergeEntry (typeName, JObj a ps) m1))) = console (effects m1))
       \<and> (\<forall>m1 t. map_of (schema m1) typeName = Some (InterfaceType t)
                   \<or> map_of (schema m1) typeName = Some (UnionType t) \<longrightarrow>
            fst (mergeEntry (typeName, JObj a ps) m1) = Done
            \<and> console (effects (snd (mergeEntry (typeName, JObj a ps) m1))) = console (effects m1))
       \<and> (\<forall>iot e. map_of (iot_fields iot) key = None \<longrightarrow>
            inputStep typeName (key, v) (iot, e) =
              (Done, (iot, console_warn
                 (quoted ''plans'' @ '' specified configuration for input object type ''
                    @ quoted typeName @ '' field '' @ quoted key
                    @ '', but that field was not present in the type'') e)))
       \<and> (\<forall>et e. find (\<lambda>x. ev_name x = key) (et_values et) = None \<longrightarrow>
            enumStep typeName (key, v) (et, e) =
              (Done, (et, console_warn
                 (quoted ''plans'' @ '' specified configuration for enum type ''
                    @ quoted typeName @ '' value '' @ quoted key
                    @ '', but that value was not present in the type'') e)))"
proof -
  have de': "distinct (map fst (entries (JObj a ps)))" using de by (simp add: entries_def)
  have ink': "(key, v) \<in> set (entries (JObj a ps))" using ink by (simp add: entries_def)
  have p1: "\<forall>ot. map_of (schema m) typeName = Some (ObjectType ot) \<longrightarrow> oc \<noteq> Done"
  proof (intro allI impI)
    fix ot
    assume node: "map_of (schema m) typeName = Some (ObjectType ot)"
    have "fst (forEach (objectStep typeName) (entries (JObj a ps)) (ot, e1)) \<noteq> Done" for e1
      by (rule objectLoop_dunder_throws[OF de' ink' sw ne])
    from merge_object_must_throw[OF d inx node this] show "oc \<noteq> Done" using run by simp
  qed
  have p2: "\<forall>s. objectStep typeName (key, v) s =
                 (Threw (Error (''Unsupported field name '' @ quoted key
                                  @ ''; perhaps you meant '' @ quoted ''__assertStep'' @ ''?'')), s)"
    by (simp add: objectStep_dunder[OF sw ne])
  have p3: "\<forall>m1 t. map_of (schema m1) typeName = Some (ScalarType t) \<longrightarrow>
            fst (mergeEntry (typeName, JObj a ps) m1) = Done
            \<and> console (effects (snd (mergeEntry (typeName, JObj a ps) m1))) = console (effects m1)"
    by (intro allI impI) (rule mergeEntry_scalar_object)
  have p4: "\<forall>m1 t. map_of (schema m1) typeName = Some (InterfaceType t)
                   \<or> map_of (schema m1) typeName = Some (UnionType t) \<longrightarrow>
            fst (mergeEntry (typeName, JObj a ps) m1) = Done
            \<and> console (effects (snd (mergeEntry (typeName, JObj a ps) m1))) = console (effects m1)"
    by (intro allI impI) (rule mergeEntry_abstract_object)
  have p5: "\<forall>iot e. map_of (iot_fields iot) key = None \<longrightarrow>
            inputStep typeName (key, v) (iot, e) =
              (Done, (iot, console_warn
                 (quoted ''plans'' @ '' specified configuration for input object type ''
                    @ quoted typeName @ '' field '' @ quoted key
                    @ '', but that field was not present in the type'') e))"
    by (simp add: inputStep_absent)
  have p6: "\<forall>et e. find (\<lambda>x. ev_name x = key) (et_values et) = None \<longrightarrow>
            enumStep typeName (key, v) (et, e) =
              (Done, (et, console_warn
                 (quoted ''plans'' @ '' specified configuration for enum type ''
                    @ quoted typeName @ '' value '' @ quoted key
                    @ '', but that value was not present in the type'') e))"
    by (simp add: enumStep_absent)
  show ?thesis using p1 p2 p3 p4 p5 p6 by (intro conjI)
qed

theorem dunder_key_rejected_for_object_types_witness:
  "distinct (map fst ex_dunder_object_plans)
   \<and> startsWith ''__resolveType'' ''__'' \<and> ''__resolveType'' \<noteq> ''__assertStep''
   \<and> map_of (schema ex_state) ''Query'' = Some (ObjectType ex_query)
   \<and> fst (mergePlans ex_dunder_object_plans ex_state) \<noteq> Done
   \<and> objectStep ''Query'' (''__resolveType'', JFun 8) (ex_query, effects ex_state)
       = (Threw (Error (''Unsupported field name '' @ quoted ''__resolveType''
                          @ ''; perhaps you meant '' @ quoted ''__assertStep'' @ ''?'')),
          (ex_query, effects ex_state))
   \<and> distinct (map fst ex_dunder_plans)
   \<and> fst (mergeEntry (''Date'', JObj 1 [(''__foo'', JNum 1)]) ex_state) = Done
   \<and> fst (mergeEntry (''Node'', JObj 2 [(''__typo'', JFun 3)]) ex_state) = Done
   \<and> fst (inputStep ''In'' (''__x'', JObj 5 []) (ex_in, effects ex_state)) = Done
   \<and> fst (enumStep ''Color'' (''__y'', JNum 2) (ex_color, effects ex_state)) = Done"
proof -
  let ?ps = "[(''hello'', JFun 7), (''__resolveType'', JFun 8)]"
  have d: "distinct (map fst ex_dunder_object_plans)" by (simp add: ex_dunder_object_plans_def)
  have i: "(''Query'', JObj 1 ?ps) \<in> set ex_dunder_object_plans"
    by (simp add: ex_dunder_object_plans_def)
  have de: "distinct (map fst ?ps)" by simp
  have ink: "(''__resolveType'', JFun 8) \<in> set ?ps" by simp
  have sw: "startsWith ''__resolveType'' ''__''" by (simp add: startsWith_def)
  have ne: "''__resolveType'' \<noteq> ''__assertStep''" by simp
  have n: "map_of (schema ex_state) ''Query'' = Some (ObjectType ex_query)"
    by (simp add: ex_state_def ex_graph_def)
  have r: "mergePlans ex_dunder_object_plans ex_state
             = (fst (mergePlans ex_dunder_object_plans ex_state),
                snd (mergePlans ex_dunder_object_plans ex_state))"
    by simp
  note A = dunder_key_rejected_for_object_types[OF d i de ink sw ne r]
  have a1: "fst (mergePlans ex_dunder_object_plans ex_state) \<noteq> Done" using A n by blast
  have a2: "objectStep ''Query'' (''__resolveType'', JFun 8) (ex_query, effects ex_state)
       = (Threw (Error (''Unsupported field name '' @ quoted ''__resolveType''
                          @ ''; perhaps you meant '' @ quoted ''__assertStep'' @ ''?'')),
          (ex_query, effects ex_state))"
    using A by blast
  have d2: "distinct (map fst ex_dunder_plans)" by (simp add: ex_dunder_plans_def)
  have r2: "mergePlans ex_dunder_plans ex_state
             = (fst (mergePlans ex_dunder_plans ex_state), snd (mergePlans ex_dunder_plans ex_state))"
    by simp
  have sx: "startsWith ''__foo'' ''__''" "startsWith ''__typo'' ''__''"
    "startsWith ''__x'' ''__''" "startsWith ''__y'' ''__''"
    by (simp_all add: startsWith_def)
  have j1: "(''Date'', JObj 1 [(''__foo'', JNum 1)]) \<in> set ex_dunder_plans"
    and j2: "(''Node'', JObj 2 [(''__typo'', JFun 3)]) \<in> set ex_dunder_plans"
    and j3: "(''In'', JObj 4 [(''__x'', JObj 5 [])]) \<in> set ex_dunder_plans"
    and j4: "(''Color'', JObj 6 [(''__y'', JNum 2)]) \<in> set ex_dunder_plans"
    by (simp_all add: ex_dunder_plans_def)
  note B1 = dunder_key_rejected_for_object_types[OF d2 j1 _ _ sx(1) _ r2, of "JNum 1"]
  note B2 = dunder_key_rejected_for_object_types[OF d2 j2 _ _ sx(2) _ r2, of "JFun 3"]
  note B3 = dunder_key_rejected_for_object_types[OF d2 j3 _ _ sx(3) _ r2, of "JObj 5 []"]
  note B4 = dunder_key_rejected_for_object_types[OF d2 j4 _ _ sx(4) _ r2, of "JNum 2"]
  have n1: "map_of (schema ex_state) ''Date'' = Some (ScalarType ex_date)"
    and n2: "map_of (schema ex_state) ''Node'' = Some (InterfaceType \<lparr>resolveType = JUndefined\<rparr>)"
    by (simp_all add: ex_state_def ex_graph_def)
  have b1: "fst (mergeEntry (''Date'', JObj 1 [(''__foo'', JNum 1)]) ex_state) = Done"
    using B1 n1 by simp
  have b2: "fst (mergeEntry (''Node'', JObj 2 [(''__typo'', JFun 3)]) ex_state) = Done"
    using B2 n2 by simp
  have m3: "map_of (iot_fields ex_in) ''__x'' = None" by (simp add: ex_in_def)
  have m4: "find (\<lambda>x. ev_name x = ''__y'') (et_values ex_color) = None" by (simp add: ex_color_def)
  have b3: "fst (inputStep ''In'' (''__x'', JObj 5 []) (ex_in, effects ex_state)) = Done"
    using B3 m3 by simp
  have b4: "fst (enumStep ''Color'' (''__y'', JNum 2) (ex_color, effects ex_state)) = Done"
    using B4 m4 by simp
  show ?thesis using d sw ne n a1 a2 d2 b1 b2 b3 b4 by (intro conjI)
qed

text \<open>
  C5, as the code has it.  The claim as stated fails at its own example: a spec in the
  style of an enum (names with scalar values), given for an object type, raises
  nothing.  Its keys are read as field names; the merge completes with two not-found
  warnings and the graph as it was.
\<close>

theorem enum_style_spec_for_object_type_only_warns:
  "mergePlans ex_mismatch_plans ex_state
     = (Done,
        \<lparr>schema = ex_graph,
         effects = \<lparr>console =
           [(Warn, quoted ''plans'' @ '' specified configuration for object type ''
                     @ quoted ''Query'' @ '' field '' @ quoted ''RED''
                     @ '', but that field was not present in the type''),
            (Warn, quoted ''plans'' @ '' specified configuration for object type ''
                     @ quoted ''Query'' @ '' field '' @ quoted ''GREEN''
                     @ '', but that field was not present in the type'')],
           next_oid = 100\<rparr>\<rparr>)"
  by (simp add: mergePlans_def ex_mismatch_plans_def ex_state_def ex_graph_def ex_query_def
        mergeEntry_def invalid_spec_def entries_def objectStep_def startsWith_def
        put_type_def console_warn_def quoted_def)

text \<open>
  C5, amended.  An entry whose node is of a recognized class and whose spec is not an
  object (its \<open>typeof\<close> is not \<open>object\<close>, or it is \<open>null\<close>): the merge does not
  complete; the entry, at whatever state it is reached, throws the error
  \<open>Invalid ... config for '...'\<close> of the node's class and writes nothing, no warning
  either; and the node is as it was in the graph that the merge leaves.  (A spec that
  is an object is not compared with the class of its node any further.)
\<close>

theorem non_object_spec_is_rejected:
  assumes d: "distinct (map fst plans)" and inx: "(typeName, spec) \<in> set plans"
    and node: "map_of (schema m) typeName = Some node"
    and rec: "\<forall>s. node \<noteq> OtherType s"
    and bad: "typeof spec \<noteq> ''object'' \<or> spec = JNull"
    and run: "mergePlans plans m = (oc, m')"
  shows "oc \<noteq> Done
       \<and> (\<forall>m1. map_of (schema m1) typeName = Some node \<longrightarrow>
            mergeEntry (typeName, spec) m1 =
              (Threw (Error (''Invalid '' @ config_kind node @ '' config for '' @ quoted typeName)),
               m1))
       \<and> map_of (schema m') typeName = Some node"
proof -
  have step: "\<forall>m1. map_of (schema m1) typeName = Some node \<longrightarrow>
            mergeEntry (typeName, spec) m1 =
              (Threw (Error (''Invalid '' @ config_kind node @ '' config for '' @ quoted typeName)),
               m1)"
    using rec bad by (simp add: mergeEntry_invalid)
  have throws: "fst (mergeEntry (typeName, spec) m1) \<noteq> Done"
    if "map_of (schema m1) typeName = map_of (schema m) typeName" for m1 :: mstate
    using that node step by simp
  have "fst (mergePlans plans m) \<noteq> Done"
    by (rule merge_must_throw[OF d inx]) (rule throws)
  then have nd: "oc \<noteq> Done" using run by simp
  have keep: "map_of (schema m') typeName = Some node"
    using merge_reach[OF d inx run]
  proof (elim disjE exE conjE)
    assume "map_of (schema m') typeName = map_of (schema m) typeName"
    then show ?thesis using node by simp
  next
    fix m1 oc1 m2
    assume st: "mergeEntry (typeName, spec) m1 = (oc1, m2)"
      and f1: "map_of (schema m1) typeName = map_of (schema m) typeName"
      and f2: "map_of (schema m') typeName = map_of (schema m2) typeName"
    have n1: "map_of (schema m1) typeName = Some node" using f1 node by simp
    then have "m2 = m1" using step st by simp
    then show ?thesis using f2 n1 by simp
  qed
  show ?thesis using nd step keep by (intro conjI)
qed

theorem non_object_spec_is_rejected_witness:
  "distinct (map fst ex_nonobject_plans)
   \<and> map_of (schema ex_state) ''Color'' = Some (EnumType ex_color)
   \<and> typeof (JStr ''RED'') \<noteq> ''object''
   \<and> fst (mergePlans ex_nonobject_plans ex_state) \<noteq> Done
   \<and> mergeEntry (''Color'', JStr ''RED'') ex_state
       = (Threw (Error (''Invalid enum config for '' @ quoted ''Color'')), ex_state)
   \<and> map_of (schema (snd (mergePlans ex_nonobject_plans ex_state))) ''Color''
       = Some (EnumType ex_color)"
proof -
  have d: "distinct (map fst ex_nonobject_plans)" by (simp add: ex_nonobject_plans_def)
  have i: "(''Color'', JStr ''RED'') \<in> set ex_nonobject_plans"
    by (simp add: ex_nonobject_plans_def)
  have n: "map_of (schema ex_state) ''Color'' = Some (EnumType ex_color)"
    by (simp add: ex_state_def ex_graph_def)
  have rc: "\<forall>s. EnumType ex_color \<noteq> OtherType s" by simp
  have t: "typeof (JStr ''RED'') \<noteq> ''object''" by simp
  then have bad: "typeof (JStr ''RED'') \<noteq> ''object'' \<or> JStr ''RED'' = JNull" by simp
  have r: "mergePlans ex_nonobject_plans ex_state
             = (fst (mergePlans ex_nonobject_plans ex_state),
                snd (mergePlans ex_nonobject_plans ex_state))"
    by simp
  note A = non_object_spec_is_rejected[OF d i n rc bad r]
  have a1: "fst (mergePlans ex_nonobject_plans ex_state) \<noteq> Done" using A by blast
  have a2: "mergeEntry (''Color'', JStr ''RED'') ex_state
       = (Threw (Error (''Invalid '' @ config_kind (EnumType ex_color) @ '' config for ''
                          @ quoted ''Color'')), ex_state)"
    using A n by blast
  have a3: "map_of (schema (snd (mergePlans ex_nonobject_plans ex_state))) ''Color''
       = Some (EnumType ex_color)"
    using A by blast
  show ?thesis using d n t a1 a2 a3 by simp
qed

lemma merge_all_absent:
  assumes "\<forall>n \<in> fst ` set plans. map_of (schema m) n = None"
    and "forEach mergeEntry plans m = (oc, m')"
  shows "oc = Done \<and> schema m' = schema m"
  using assms
proof (induction plans arbitrary: m)
  case Nil
  then show ?case by simp
next
  case (Cons x xs)
  obtain n s where x: "x = (n, s)" by (cases x)
  have n: "map_of (schema m) n = None" using Cons.prems(1) x by simp
  obtain w where st: "mergeEntry x m = (Done, m\<lparr>effects := w\<rparr>)"
    using n x by (simp add: mergeEntry_def)
  have r: "forEach mergeEntry xs (m\<lparr>effects := w\<rparr>) = (oc, m')"
    using Cons.prems(2) st by simp
  have "\<forall>n \<in> fst ` set xs. map_of (schema (m\<lparr>effects := w\<rparr>)) n = None"
    using Cons.prems(1) by simp
  from Cons.IH[OF this r] show ?case by simp
qed

text \<open>
  C6.  A type name of the configuration map that the graph does not have: the entry
  is handled without an error, by one warning that names the type and nothing else (the
  graph is as it was); after the merge, however it ends, the graph still has no node of
  that name; when the merge completes, the warning is on the console; and a map all of
  whose names are absent makes the merge complete with the graph unchanged.
\<close>

theorem absent_type_is_warned_and_skipped:
  assumes d: "distinct (map fst plans)" and inx: "(typeName, spec) \<in> set plans"
    and absent: "map_of (schema m) typeName = None"
    and run: "mergePlans plans m = (oc, m')"
  shows "(\<forall>m1. map_of (schema m1) typeName = None \<longrightarrow>
            mergeEntry (typeName, spec) m1 =
              (Done, m1\<lparr>effects := console_warn
                 (quoted ''plans'' @ '' specified configuration for type '' @ quoted typeName
                    @ '', but that type was not present in the schema'') (effects m1)\<rparr>))
       \<and> map_of (schema m') typeName = None
       \<and> (oc = Done \<longrightarrow>
            (Warn, quoted ''plans'' @ '' specified configuration for type '' @ quoted typeName
                     @ '', but that type was not present in the schema'')
              \<in> set (console (effects m')))
       \<and> ((\<forall>n \<in> fst ` set plans. map_of (schema m) n = None) \<longrightarrow>
            oc = Done \<and> schema m' = schema m)"
proof -
  let ?w = "quoted ''plans'' @ '' specified configuration for type '' @ quoted typeName
              @ '', but that type was not present in the schema''"
  have step: "\<And>m1. map_of (schema m1) typeName = None \<Longrightarrow>
      mergeEntry (typeName, spec) m1 = (Done, m1\<lparr>effects := console_warn ?w (effects m1)\<rparr>)"
    by (simp add: mergeEntry_def)
  have all: "(\<forall>n \<in> fst ` set plans. map_of (schema m) n = None) \<longrightarrow>
            oc = Done \<and> schema m' = schema m"
    using merge_all_absent[of plans m oc m'] run by (simp add: mergePlans_def)
  have rest: "map_of (schema m') typeName = None
       \<and> (oc = Done \<longrightarrow> (Warn, ?w) \<in> set (console (effects m')))"
    using merge_reach[OF d inx run]
  proof (elim disjE exE conjE)
    assume "oc \<noteq> Done" and "map_of (schema m') typeName = map_of (schema m) typeName"
    then show ?thesis using absent by simp
  next
    fix m1 oc1 m2
    assume st: "mergeEntry (typeName, spec) m1 = (oc1, m2)"
      and f1: "map_of (schema m1) typeName = map_of (schema m) typeName"
      and f2: "map_of (schema m') typeName = map_of (schema m2) typeName"
      and le: "env_le (effects m2) (effects m')"
    have a1: "map_of (schema m1) typeName = None" using f1 absent by simp
    have m2: "m2 = m1\<lparr>effects := console_warn ?w (effects m1)\<rparr>"
      using step[OF a1] st by simp
    have "(Warn, ?w) \<in> set (console (effects m2))"
      unfolding m2 by (simp add: console_warn_def)
    then have "(Warn, ?w) \<in> set (console (effects m'))" by (rule env_le_console[OF le])
    moreover have "map_of (schema m') typeName = None" using f2 a1 m2 by simp
    ultimately show ?thesis by simp
  qed
  show ?thesis using step all rest by blast
qed

theorem absent_type_is_warned_and_skipped_witness:
  "distinct (map fst ex_absent_plans)
   \<and> (''Missing'', JObj 1 [(''f'', JFun 2)]) \<in> set ex_absent_plans
   \<and> map_of (schema ex_state) ''Missing'' = None
   \<and> fst (mergePlans ex_absent_plans ex_state) = Done
   \<and> map_of (schema (snd (mergePlans ex_absent_plans ex_state))) ''Missing'' = None
   \<and> (Warn, quoted ''plans'' @ '' specified configuration for type '' @ quoted ''Missing''
               @ '', but that type was not present in the schema'')
        \<in> set (console (effects (snd (mergePlans ex_absent_plans ex_state))))
   \<and> fst (mergePlans [(''Missing'', JNum 0)] ex_state) = Done
   \<and> schema (snd (mergePlans [(''Missing'', JNum 0)] ex_state)) = schema ex_state"
proof -
  have d: "distinct (map fst ex_absent_plans)" by (simp add: ex_absent_plans_def)
  have i: "(''Missing'', JObj 1 [(''f'', JFun 2)]) \<in> set ex_absent_plans"
    by (simp add: ex_absent_plans_def)
  have a: "map_of (schema ex_state) ''Missing'' = None"
    by (simp add: ex_state_def ex_graph_def)
  have r: "mergePlans ex_absent_plans ex_state
             = (fst (mergePlans ex_absent_plans ex_state), snd (mergePlans ex_absent_plans ex_state))"
    by simp
  have dn: "fst (mergePlans ex_absent_plans ex_state) = Done"
    by (simp add: mergePlans_def ex_absent_plans_def ex_state_def ex_graph_def mergeEntry_def
          invalid_spec_def entries_def enumStep_def ex_color_def write_value_def put_type_def)
  have d2: "distinct (map fst [(''Missing'', JNum 0)])" by simp
  have i2: "(''Missing'', JNum 0) \<in> set [(''Missing'', JNum 0)]" by simp
  have r2: "mergePlans [(''Missing'', JNum 0)] ex_state
             = (fst (mergePlans [(''Missing'', JNum 0)] ex_state),
                snd (mergePlans [(''Missing'', JNum 0)] ex_state))"
    by simp
  have all2: "\<forall>n \<in> fst ` set [(''Missing'', JNum 0)]. map_of (schema ex_state) n = None"
    using a by simp
  show ?thesis
    using absent_type_is_warned_and_skipped[OF d i a r]
      absent_type_is_warned_and_skipped[OF d2 i2 a r2] d i a dn all2
    by blast
qed



text \<open>
  C8.  An object type of the graph, and in its spec a field that the type has,
  configured by a structured object whose \<open>resolve\<close> is a function: after a merge that
  completes, the field's \<open>resolve\<close> is that function, and the slot \<open>grafast\<close> of its
  extensions holds an object allocated during this merge (its identity is none of
  those that existed before), whose properties are \<open>plan\<close> and \<open>subscribePlan\<close> as far
  as the spec gives a function for them, each with the spec's value: all its keys are
  plan keys that are in the spec.
\<close>

theorem structured_resolve_and_fresh_slot:
  assumes d: "distinct (map fst plans)" and inx: "(typeName, spec) \<in> set plans"
    and node: "map_of (schema m) typeName = Some (ObjectType ot)"
    and de: "distinct (map fst (entries spec))"
    and inf: "(fieldName, JObj a fs) \<in> set (entries spec)"
    and res: "get_prop (JObj a fs) ''resolve'' = JFun r"
    and fld: "map_of (ot_fields ot) fieldName = Some fld"
    and nu: "\<not> startsWith fieldName ''__''"
    and run: "mergePlans plans m = (Done, m')"
  shows "\<exists>ot' fld' oid gx. map_of (schema m') typeName = Some (ObjectType ot')
           \<and> map_of (ot_fields ot') fieldName = Some fld'
           \<and> field_resolve fld' = JFun r
           \<and> map_of (field_extensions fld') ''grafast'' = Some (JObj oid gx)
           \<and> next_oid (effects m) \<le> oid \<and> oid < next_oid (effects m')
           \<and> gx = (if typeof (get_prop (JObj a fs) ''plan'') = ''function''
                    then [(''plan'', get_prop (JObj a fs) ''plan'')] else [])
                 @ (if typeof (get_prop (JObj a fs) ''subscribePlan'') = ''function''
                    then [(''subscribePlan'', get_prop (JObj a fs) ''subscribePlan'')] else [])
           \<and> fst ` set gx \<subseteq> {''plan'', ''subscribePlan''} \<inter> fst ` set fs"
proof -
  from merge_object_field_focus[OF d inx node de inf fld nu run] obtain ot' fld' e1 e2 where
    n: "map_of (schema m') typeName = Some (ObjectType ot')"
    and f: "map_of (ot_fields ot') fieldName = Some fld'"
    and fb: "fieldBody typeName fieldName (JObj a fs) (fld, e1) = (Done, (fld', e2))"
    and l1: "env_le (effects m) e1" and l2: "env_le e2 (effects m')"
    by (elim exE conjE)
  define gx where "gx = (if typeof (get_prop (JObj a fs) ''plan'') = ''function''
                    then [(''plan'', get_prop (JObj a fs) ''plan'')] else [])
                 @ (if typeof (get_prop (JObj a fs) ''subscribePlan'') = ''function''
                    then [(''subscribePlan'', get_prop (JObj a fs) ''subscribePlan'')] else [])"
  have s: "field_resolve fld' =
           (if typeof (get_prop (JObj a fs) ''resolve'') = ''function''
            then get_prop (JObj a fs) ''resolve'' else field_resolve fld)
       \<and> field_extensions fld' = set_grafast (JObj (next_oid e1) gx) (field_extensions fld)"
    unfolding gx_def using fieldBody_struct[OF _ _ _ fb] by simp
  have r: "field_resolve fld' = JFun r" using s unfolding res by simp
  have x: "map_of (field_extensions fld') ''grafast'' = Some (JObj (next_oid e1) gx)"
    using s by (simp add: set_grafast_def map_of_update_same)
  have o1: "next_oid (effects m) \<le> next_oid e1" by (rule env_le_oid[OF l1])
  have "next_oid e1 < next_oid e2" using fieldBody_env[OF fb] by simp
  moreover have "next_oid e2 \<le> next_oid (effects m')" by (rule env_le_oid[OF l2])
  ultimately have o2: "next_oid e1 < next_oid (effects m')" by simp
  have kp: "typeof (get_prop (JObj a fs) ''plan'') = ''function'' \<Longrightarrow> ''plan'' \<in> fst ` set fs"
    by (rule get_prop_function_key)
  have ks: "typeof (get_prop (JObj a fs) ''subscribePlan'') = ''function''
              \<Longrightarrow> ''subscribePlan'' \<in> fst ` set fs"
    by (rule get_prop_function_key)
  have k: "fst ` set gx \<subseteq> {''plan'', ''subscribePlan''} \<inter> fst ` set fs"
    unfolding gx_def using kp ks by (auto simp del: get_prop.simps)
  show ?thesis using n f r x o1 o2 k gx_def by blast
qed

theorem structured_resolve_and_fresh_slot_witness:
  "distinct (map fst ex_resolve_plans)
   \<and> fst (mergePlans ex_resolve_plans ex_state) = Done
   \<and> (\<exists>ot' fld' oid. map_of (schema (snd (mergePlans ex_resolve_plans ex_state))) ''Query''
                          = Some (ObjectType ot')
          \<and> map_of (ot_fields ot') ''hello'' = Some fld'
          \<and> field_resolve fld' = JFun 8
          \<and> map_of (field_extensions fld') ''grafast'' = Some (JObj oid [(''plan'', JFun 7)])
          \<and> 100 \<le> oid)"
proof -
  let ?fs = "[(''resolve'', JFun 8), (''plan'', JFun 7), (''subscribePlan'', JStr ''later'')]"
  let ?spec = "JObj 1 [(''hello'', JObj 2 ?fs)]"
  have d: "distinct (map fst ex_resolve_plans)" by (simp add: ex_resolve_plans_def)
  have i: "(''Query'', ?spec) \<in> set ex_resolve_plans" by (simp add: ex_resolve_plans_def)
  have n: "map_of (schema ex_state) ''Query'' = Some (ObjectType ex_query)"
    by (simp add: ex_state_def ex_graph_def)
  have de: "distinct (map fst (entries ?spec))" by (simp add: entries_def)
  have i1: "(''hello'', JObj 2 ?fs) \<in> set (entries ?spec)" by (simp add: entries_def)
  have rs: "get_prop (JObj 2 ?fs) ''resolve'' = JFun 8" by simp
  have f1: "map_of (ot_fields ex_query) ''hello'' = Some ex_hello" by (simp add: ex_query_def)
  have nu: "\<not> startsWith ''hello'' ''__''" by (simp add: startsWith_def)
  have dn: "fst (mergePlans ex_resolve_plans ex_state) = Done"
    by (simp add: mergePlans_def ex_resolve_plans_def ex_state_def ex_graph_def mergeEntry_def
          invalid_spec_def entries_def objectStep_def ex_query_def startsWith_def
          fieldBody_def put_type_def alloc_def)
  then have r: "mergePlans ex_resolve_plans ex_state
                  = (Done, snd (mergePlans ex_resolve_plans ex_state))"
    by (metis prod.collapse)
  have o: "next_oid (effects ex_state) = 100" by (simp add: ex_state_def)
  show ?thesis
    using structured_resolve_and_fresh_slot[OF d i n de i1 rs f1 nu r] d dn
    by (simp add: o) blast
qed

text \<open>
  C9.  An object type of the graph, a field that the type has, configured by a
  structured object whose \<open>args\<close> is a mapping, and an entry of that mapping.
  \<^item> The field declares no argument of that name: the entry gives a warning that names
    type, field and argument and writes nothing; the warning is on the console when the
    merge completes.
  \<^item> The field declares the argument and the entry is a bare function: the merge does not
    complete, and the entry throws the error whose message names the path
    \<open>plans.<type>.<field>.args.<arg>\<close>, writing nothing.
  \<^item> The field declares the argument and the entry is anything else: after a merge that
    completes, the argument is the argument of before with the slot \<open>grafast\<close> of its
    extensions replaced by an object allocated during this merge, which holds what
    \<open>Object.assign\<close> copies from the entry: for an object all its properties, in
    their order.
\<close>

theorem args_entries_policy:
  assumes d: "distinct (map fst plans)" and inx: "(typeName, spec) \<in> set plans"
    and node: "map_of (schema m) typeName = Some (ObjectType ot)"
    and de: "distinct (map fst (entries spec))"
    and inf: "(fieldName, JObj a fs) \<in> set (entries spec)"
    and args: "get_prop (JObj a fs) ''args'' = JObj b as"
    and da: "distinct (map fst as)" and ina: "(argName, argSpec) \<in> set as"
    and fld: "map_of (ot_fields ot) fieldName = Some fld"
    and nu: "\<not> startsWith fieldName ''__''"
    and run: "mergePlans plans m = (oc, m')"
  shows "(\<forall>f e. find (\<lambda>x. arg_name x = argName) (field_args f) = None \<longrightarrow>
            argStep typeName fieldName (argName, argSpec) (f, e) =
              (Done, (f, console_warn
                 (quoted ''plans'' @ '' specified configuration for object type ''
                    @ quoted typeName @ '' field '' @ quoted fieldName @ '' arg ''
                    @ quoted argName @ '', but that arg was not present in the type'') e)))
       \<and> (find (\<lambda>x. arg_name x = argName) (field_args fld) = None \<and> oc = Done \<longrightarrow>
            (Warn, quoted ''plans'' @ '' specified configuration for object type ''
                     @ quoted typeName @ '' field '' @ quoted fieldName @ '' arg ''
                     @ quoted argName @ '', but that arg was not present in the type'')
              \<in> set (console (effects m')))
       \<and> (\<forall>f e arg. find (\<lambda>x. arg_name x = argName) (field_args f) = Some arg
              \<and> typeof argSpec = ''function'' \<longrightarrow>
            argStep typeName fieldName (argName, argSpec) (f, e) =
              (Threw (Error
                 (''Invalid configuration for plans.'' @ typeName @ ''.'' @ fieldName
                    @ ''.args.'' @ argName
                    @ '' - saw a function, but expected an object with 'inputPlan' (optional) and 'applyPlan' (optional) plans'')),
               (f, e)))
       \<and> (\<forall>arg. find (\<lambda>x. arg_name x = argName) (field_args fld) = Some arg
              \<and> typeof argSpec = ''function'' \<longrightarrow> oc \<noteq> Done)
       \<and> (\<forall>arg. find (\<lambda>x. arg_name x = argName) (field_args fld) = Some arg
              \<and> typeof argSpec \<noteq> ''function'' \<and> oc = Done \<longrightarrow>
            (\<exists>ot' fld' oid. map_of (schema m') typeName = Some (ObjectType ot')
               \<and> map_of (ot_fields ot') fieldName = Some fld'
               \<and> find (\<lambda>x. arg_name x = argName) (field_args fld')
                    = Some (arg\<lparr>arg_extensions :=
                         set_grafast (JObj oid (object_assign [] argSpec)) (arg_extensions arg)\<rparr>)
               \<and> next_oid (effects m) \<le> oid \<and> oid < next_oid (effects m')))
       \<and> (\<forall>c ps. argSpec = JObj c ps \<and> distinct (map fst ps) \<longrightarrow>
            object_assign [] argSpec = ps)"
proof -
  let ?W = "quoted ''plans'' @ '' specified configuration for object type ''
              @ quoted typeName @ '' field '' @ quoted fieldName @ '' arg ''
              @ quoted argName @ '', but that arg was not present in the type''"
  let ?find = "\<lambda>f. find (\<lambda>x. arg_name x = argName) (field_args f)"
  have nf: "typeof (JObj a fs) \<noteq> ''function''" by simp
  have nn: "JObj a fs \<noteq> JNull" "JObj a fs \<noteq> JUndefined" by simp_all
  have p1: "\<forall>f e. ?find f = None \<longrightarrow>
            argStep typeName fieldName (argName, argSpec) (f, e) = (Done, (f, console_warn ?W e))"
    by (simp add: argStep_absent)
  have p3: "\<forall>f e arg. ?find f = Some arg \<and> typeof argSpec = ''function'' \<longrightarrow>
            argStep typeName fieldName (argName, argSpec) (f, e) =
              (Threw (Error
                 (''Invalid configuration for plans.'' @ typeName @ ''.'' @ fieldName
                    @ ''.args.'' @ argName
                    @ '' - saw a function, but expected an object with 'inputPlan' (optional) and 'applyPlan' (optional) plans'')),
               (f, e))"
    by (simp add: argStep_function)
  have p6: "\<forall>c ps. argSpec = JObj c ps \<and> distinct (map fst ps) \<longrightarrow> object_assign [] argSpec = ps"
    by (simp add: object_assign_copy)
  have done_case: "\<exists>ot' fld' fa ea fb eb. map_of (schema m') typeName = Some (ObjectType ot')
      \<and> map_of (ot_fields ot') fieldName = Some fld'
      \<and> argStep typeName fieldName (argName, argSpec) (fa, ea) = (Done, (fb, eb))
      \<and> ?find fa = ?find fld \<and> ?find fld' = ?find fb
      \<and> env_le (effects m) ea \<and> env_le eb (effects m')" if dn: "oc = Done"
  proof -
    have run': "mergePlans plans m = (Done, m')" using run dn by simp
    from merge_object_field_focus[OF d inx node de inf fld nu run'] obtain ot' fld' e1 e2 where
      n: "map_of (schema m') typeName = Some (ObjectType ot')"
      and f: "map_of (ot_fields ot') fieldName = Some fld'"
      and fb: "fieldBody typeName fieldName (JObj a fs) (fld, e1) = (Done, (fld', e2))"
      and l1: "env_le (effects m) e1" and l2: "env_le e2 (effects m')"
      by (elim exE conjE)
    from fieldBody_args_loop[OF nf nn args, of fld typeName fieldName e1] obtain f4 where
      a4: "field_args f4 = field_args fld"
      and lp: "fieldBody typeName fieldName (JObj a fs) (fld, e1)
                 = forEach (argStep typeName fieldName) as (f4, e1\<lparr>next_oid := Suc (next_oid e1)\<rparr>)"
      by (elim exE conjE)
    have loop: "forEach (argStep typeName fieldName) as (f4, e1\<lparr>next_oid := Suc (next_oid e1)\<rparr>)
                  = (Done, (fld', e2))"
      using fb lp by simp
    from arg_focus[OF da ina loop] obtain fa ea fb eb where
      st: "argStep typeName fieldName (argName, argSpec) (fa, ea) = (Done, (fb, eb))"
      and g1: "?find fa = ?find f4" and g2: "?find fld' = ?find fb"
      and l3: "env_le (e1\<lparr>next_oid := Suc (next_oid e1)\<rparr>) ea" and l4: "env_le eb e2"
      by (elim exE conjE)
    have "env_le e1 (e1\<lparr>next_oid := Suc (next_oid e1)\<rparr>)" by (simp add: env_le_def)
    then have "env_le (effects m) ea" using l1 l3 by (blast intro: env_le_trans)
    moreover have "env_le eb (effects m')" using l4 l2 by (blast intro: env_le_trans)
    moreover have "?find fa = ?find fld" using g1 a4 by simp
    ultimately show ?thesis using n f st g2 by (intro exI conjI)
  qed
  have p2: "?find fld = None \<and> oc = Done \<longrightarrow> (Warn, ?W) \<in> set (console (effects m'))"
  proof (intro impI, elim conjE)
    assume none: "?find fld = None" and dn: "oc = Done"
    from done_case[OF dn] obtain fa ea fb eb where
      st: "argStep typeName fieldName (argName, argSpec) (fa, ea) = (Done, (fb, eb))"
      and g1: "?find fa = ?find fld" and l: "env_le eb (effects m')"
      by (elim exE conjE)
    have "?find fa = None" using g1 none by simp
    then have "eb = console_warn ?W ea" using st by (simp add: argStep_absent)
    then have "(Warn, ?W) \<in> set (console eb)" by (simp add: console_warn_def)
    then show "(Warn, ?W) \<in> set (console (effects m'))" by (rule env_le_console[OF l])
  qed
  have p4: "\<forall>arg. ?find fld = Some arg \<and> typeof argSpec = ''function'' \<longrightarrow> oc \<noteq> Done"
  proof (intro allI impI, elim conjE)
    fix arg
    assume found: "?find fld = Some arg" and fn: "typeof argSpec = ''function''"
    have fbt: "fst (fieldBody typeName fieldName (JObj a fs) (fld, e1)) \<noteq> Done" for e1
    proof -
      from fieldBody_args_loop[OF nf nn args, of fld typeName fieldName e1] obtain f4 where
        a4: "field_args f4 = field_args fld"
        and lp: "fieldBody typeName fieldName (JObj a fs) (fld, e1)
                 = forEach (argStep typeName fieldName) as (f4, e1\<lparr>next_oid := Suc (next_oid e1)\<rparr>)"
        by (elim exE conjE)
      have "?find f4 = Some arg" using a4 found by simp
      from argLoop_must_throw[OF da ina fn this] show ?thesis unfolding lp .
    qed
    have "fst (forEach (objectStep typeName) (entries spec) (ot, e1)) \<noteq> Done" for e1
      by (rule objectLoop_must_throw[OF de inf fld nu fbt])
    from merge_object_must_throw[OF d inx node this] show "oc \<noteq> Done" using run by simp
  qed
  have p5: "\<forall>arg. ?find fld = Some arg \<and> typeof argSpec \<noteq> ''function'' \<and> oc = Done \<longrightarrow>
            (\<exists>ot' fld' oid. map_of (schema m') typeName = Some (ObjectType ot')
               \<and> map_of (ot_fields ot') fieldName = Some fld'
               \<and> ?find fld' = Some (arg\<lparr>arg_extensions :=
                         set_grafast (JObj oid (object_assign [] argSpec)) (arg_extensions arg)\<rparr>)
               \<and> next_oid (effects m) \<le> oid \<and> oid < next_oid (effects m'))"
  proof (intro allI impI, elim conjE)
    fix arg
    assume found: "?find fld = Some arg" and nfa: "typeof argSpec \<noteq> ''function''"
      and dn: "oc = Done"
    from done_case[OF dn] obtain ot' fld' fa ea fb eb where
      n: "map_of (schema m') typeName = Some (ObjectType ot')"
      and f: "map_of (ot_fields ot') fieldName = Some fld'"
      and st: "argStep typeName fieldName (argName, argSpec) (fa, ea) = (Done, (fb, eb))"
      and g1: "?find fa = ?find fld" and g2: "?find fld' = ?find fb"
      and l1: "env_le (effects m) ea" and l2: "env_le eb (effects m')"
      by (elim exE conjE)
    have fa: "?find fa = Some arg" using g1 found by simp
    from argStep_found[OF fa nfa st] have
      r: "?find fb = Some (arg\<lparr>arg_extensions :=
            set_grafast (JObj (next_oid ea) (object_assign [] argSpec)) (arg_extensions arg)\<rparr>)"
      and lt: "next_oid ea < next_oid eb"
      by simp_all
    have o1: "next_oid (effects m) \<le> next_oid ea" by (rule env_le_oid[OF l1])
    have "next_oid eb \<le> next_oid (effects m')" by (rule env_le_oid[OF l2])
    then have o2: "next_oid ea < next_oid (effects m')" using lt by simp
    show "\<exists>ot' fld' oid. map_of (schema m') typeName = Some (ObjectType ot')
               \<and> map_of (ot_fields ot') fieldName = Some fld'
               \<and> ?find fld' = Some (arg\<lparr>arg_extensions :=
                         set_grafast (JObj oid (object_assign [] argSpec)) (arg_extensions arg)\<rparr>)
               \<and> next_oid (effects m) \<le> oid \<and> oid < next_oid (effects m')"
      using n f g2 r o1 o2 by auto
  qed
  show ?thesis using p1 p2 p3 p4 p5 p6 by (intro conjI)
qed

theorem args_entries_policy_witness:
  "distinct (map fst ex_args_plans)
   \<and> fst (mergePlans ex_args_plans ex_state) = Done
   \<and> (Warn, quoted ''plans'' @ '' specified configuration for object type '' @ quoted ''Query''
               @ '' field '' @ quoted ''hello'' @ '' arg '' @ quoted ''nope''
               @ '', but that arg was not present in the type'')
        \<in> set (console (effects (snd (mergePlans ex_args_plans ex_state))))
   \<and> (\<exists>ot' fld' oid. map_of (schema (snd (mergePlans ex_args_plans ex_state))) ''Query''
                          = Some (ObjectType ot')
          \<and> map_of (ot_fields ot') ''hello'' = Some fld'
          \<and> find (\<lambda>x. arg_name x = ''name'') (field_args fld')
               = Some \<lparr>arg_name = ''name'',
                        arg_extensions = [(''grafast'', JObj oid [(''autoApply'', JBool True)])]\<rparr>
          \<and> 100 \<le> oid)
   \<and> distinct (map fst ex_arg_function_plans)
   \<and> typeof (JFun 9) = ''function''
   \<and> fst (mergePlans ex_arg_function_plans ex_state) \<noteq> Done"
proof -
  let ?as = "[(''name'', JObj 4 [(''autoApply'', JBool True)]), (''nope'', JObj 5 [])]"
  let ?fs = "[(''plan'', JFun 7), (''args'', JObj 3 ?as)]"
  let ?spec = "JObj 1 [(''hello'', JObj 2 ?fs)]"
  let ?as2 = "[(''name'', JFun 9)]"
  let ?fs2 = "[(''args'', JObj 3 ?as2)]"
  let ?spec2 = "JObj 1 [(''hello'', JObj 2 ?fs2)]"
  let ?arg = "\<lparr>arg_name = ''name'', arg_extensions = []\<rparr>"
  have d: "distinct (map fst ex_args_plans)" by (simp add: ex_args_plans_def)
  have i: "(''Query'', ?spec) \<in> set ex_args_plans" by (simp add: ex_args_plans_def)
  have d2: "distinct (map fst ex_arg_function_plans)" by (simp add: ex_arg_function_plans_def)
  have i2: "(''Query'', ?spec2) \<in> set ex_arg_function_plans"
    by (simp add: ex_arg_function_plans_def)
  have n: "map_of (schema ex_state) ''Query'' = Some (ObjectType ex_query)"
    by (simp add: ex_state_def ex_graph_def)
  have de: "distinct (map fst (entries ?spec))" by (simp add: entries_def)
  have de2: "distinct (map fst (entries ?spec2))" by (simp add: entries_def)
  have inf: "(''hello'', JObj 2 ?fs) \<in> set (entries ?spec)" by (simp add: entries_def)
  have inf2: "(''hello'', JObj 2 ?fs2) \<in> set (entries ?spec2)" by (simp add: entries_def)
  have ar: "get_prop (JObj 2 ?fs) ''args'' = JObj 3 ?as" by simp
  have ar2: "get_prop (JObj 2 ?fs2) ''args'' = JObj 3 ?as2" by simp
  have da: "distinct (map fst ?as)" by simp
  have da2: "distinct (map fst ?as2)" by simp
  have ia: "(''name'', JObj 4 [(''autoApply'', JBool True)]) \<in> set ?as" by simp
  have ib: "(''nope'', JObj 5 []) \<in> set ?as" by simp
  have ic: "(''name'', JFun 9) \<in> set ?as2" by simp
  have f1: "map_of (ot_fields ex_query) ''hello'' = Some ex_hello" by (simp add: ex_query_def)
  have nu: "\<not> startsWith ''hello'' ''__''" by (simp add: startsWith_def)
  have fa: "find (\<lambda>x. arg_name x = ''name'') (field_args ex_hello) = Some ?arg"
    by (simp add: ex_hello_def)
  have fb: "find (\<lambda>x. arg_name x = ''nope'') (field_args ex_hello) = None"
    by (simp add: ex_hello_def)
  have tf: "typeof (JFun 9) = ''function''" by simp
  have tn: "typeof (JObj 4 [(''autoApply'', JBool True)]) \<noteq> ''function''" by simp
  have dn: "fst (mergePlans ex_args_plans ex_state) = Done"
    by (simp add: mergePlans_def ex_args_plans_def ex_state_def ex_graph_def mergeEntry_def
          invalid_spec_def entries_def objectStep_def ex_query_def ex_hello_def startsWith_def
          fieldBody_def fieldHooks_def argStep_def put_type_def alloc_def)
  have r: "mergePlans ex_args_plans ex_state
             = (fst (mergePlans ex_args_plans ex_state), snd (mergePlans ex_args_plans ex_state))"
    by simp
  have r2: "mergePlans ex_arg_function_plans ex_state
             = (fst (mergePlans ex_arg_function_plans ex_state),
                snd (mergePlans ex_arg_function_plans ex_state))"
    by simp
  have o: "next_oid (effects ex_state) = 100" by (simp add: ex_state_def)
  have oa: "object_assign [] (JObj 4 [(''autoApply'', JBool True)]) = [(''autoApply'', JBool True)]"
    by (simp add: object_assign_def)
  note A = args_entries_policy[OF d i n de inf ar da ib f1 nu r]
  note B = args_entries_policy[OF d i n de inf ar da ia f1 nu r]
  note C = args_entries_policy[OF d2 i2 n de2 inf2 ar2 da2 ic f1 nu r2]
  have w: "(Warn, quoted ''plans'' @ '' specified configuration for object type '' @ quoted ''Query''
               @ '' field '' @ quoted ''hello'' @ '' arg '' @ quoted ''nope''
               @ '', but that arg was not present in the type'')
        \<in> set (console (effects (snd (mergePlans ex_args_plans ex_state))))"
    using A fb dn by blast
  have s: "\<exists>ot' fld' oid. map_of (schema (snd (mergePlans ex_args_plans ex_state))) ''Query''
                          = Some (ObjectType ot')
          \<and> map_of (ot_fields ot') ''hello'' = Some fld'
          \<and> find (\<lambda>x. arg_name x = ''name'') (field_args fld')
               = Some (?arg\<lparr>arg_extensions := set_grafast
                    (JObj oid (object_assign [] (JObj 4 [(''autoApply'', JBool True)])))
                    (arg_extensions ?arg)\<rparr>)
          \<and> next_oid (effects ex_state) \<le> oid
          \<and> oid < next_oid (effects (snd (mergePlans ex_args_plans ex_state)))"
    using B fa tn dn by blast
  have t: "fst (mergePlans ex_arg_function_plans ex_state) \<noteq> Done"
    using C fa tf by blast
  have s': "\<exists>ot' fld' oid. map_of (schema (snd (mergePlans ex_args_plans ex_state))) ''Query''
                          = Some (ObjectType ot')
          \<and> map_of (ot_fields ot') ''hello'' = Some fld'
          \<and> find (\<lambda>x. arg_name x = ''name'') (field_args fld')
               = Some \<lparr>arg_name = ''name'',
                        arg_extensions = [(''grafast'', JObj oid [(''autoApply'', JBool True)])]\<rparr>
          \<and> 100 \<le> oid"
    using s unfolding oa o by (simp add: set_grafast_def) blast
  show ?thesis using d dn w s' d2 tf t by (intro conjI)
qed


text \<open>
  C10, as the code has it.  The claim as stated fails for \<open>plan\<close> and
  \<open>subscribePlan\<close> in a structured field spec: the branch for a structured spec puts
  a new object in the slot \<open>grafast\<close> of the field before it looks at any key, so the
  slot is not left as it was.  Here \<open>hello\<close>, which has no extension in the built graph,
  is configured by \<open>{plan: 'p'}\<close>: the merge completes without a line on the console,
  and the field has the slot \<open>grafast\<close>, holding an empty object.
\<close>

theorem non_function_plan_still_installs_slot:
  "field_extensions ex_hello = []
   \<and> typeof (get_prop (JObj 2 [(''plan'', JStr ''p'')]) ''plan'') \<noteq> ''function''
   \<and> mergePlans ex_plan_string_plans ex_state
       = (Done,
          \<lparr>schema =
             [(''Query'', ObjectType \<lparr>ot_fields =
                 [(''hello'', ex_hello\<lparr>field_extensions := [(''grafast'', JObj 100 [])]\<rparr>),
                  (''goodbye'', ex_goodbye)],
                 ot_extensions = []\<rparr>),
              (''Color'', EnumType ex_color), (''In'', InputObjectType ex_in),
              (''Node'', InterfaceType \<lparr>resolveType = JUndefined\<rparr>),
              (''Date'', ScalarType ex_date), (''Odd'', OtherType ''Odd'')],
           effects = \<lparr>console = [], next_oid = 101\<rparr>\<rparr>)"
  by (simp add: mergePlans_def ex_plan_string_plans_def ex_state_def ex_graph_def ex_query_def
        ex_hello_def mergeEntry_def invalid_spec_def entries_def objectStep_def startsWith_def
        fieldBody_def fieldHooks_def put_type_def alloc_def set_grafast_def)

text \<open>
  C10, amended.  In the spec of a scalar type, a recognized key whose value is not a
  function is ignored: the entry raises no error and writes no line, and after the
  merge, however it ends, \<open>serialize\<close>, \<open>parseValue\<close>, \<open>parseLiteral\<close> and the
  extensions (for \<open>plan\<close>) are those of before, each when its key holds no function.
  In a structured field spec of an object type, a value of the four keys that is not a
  function raises no error either (the field body fails for a bare function among the
  \<open>args\<close> only) and is stored nowhere: after a merge that completes the field's
  \<open>resolve\<close> and \<open>subscribe\<close> are those of before, each when its key holds no
  function.  The slot \<open>grafast\<close> of the field, however, is replaced, as for every
  structured spec, by an object allocated during this merge, and this object has no
  \<open>plan\<close> and no \<open>subscribePlan\<close>, each when its key holds no function; the other
  namespaces of the extensions are those of before.
\<close>

theorem non_function_hooks_are_ignored:
  assumes d: "distinct (map fst plans)" and inx: "(typeName, JObj a ps) \<in> set plans"
    and run: "mergePlans plans m = (oc, m')"
  shows "(\<forall>m1 t1. map_of (schema m1) typeName = Some (ScalarType t1) \<longrightarrow>
            fst (mergeEntry (typeName, JObj a ps) m1) = Done
            \<and> console (effects (snd (mergeEntry (typeName, JObj a ps) m1))) = console (effects m1))
       \<and> (\<forall>t. map_of (schema m) typeName = Some (ScalarType t) \<longrightarrow>
            (\<exists>t'. map_of (schema m') typeName = Some (ScalarType t')
               \<and> (typeof (get_prop (JObj a ps) ''serialize'') \<noteq> ''function''
                    \<longrightarrow> serialize t' = serialize t)
               \<and> (typeof (get_prop (JObj a ps) ''parseValue'') \<noteq> ''function''
                    \<longrightarrow> parseValue t' = parseValue t)
               \<and> (typeof (get_prop (JObj a ps) ''parseLiteral'') \<noteq> ''function''
                    \<longrightarrow> parseLiteral t' = parseLiteral t)
               \<and> (typeof (get_prop (JObj a ps) ''plan'') \<noteq> ''function''
                    \<longrightarrow> scalar_extensions t' = scalar_extensions t)))
       \<and> (\<forall>fieldName b fs fld e.
            (\<forall>x \<in> set (entries (get_prop (JObj b fs) ''args'')). typeof (snd x) \<noteq> ''function'')
            \<longrightarrow> fst (fieldBody typeName fieldName (JObj b fs) (fld, e)) = Done)
       \<and> (\<forall>ot fieldName b fs fld.
            map_of (schema m) typeName = Some (ObjectType ot) \<and> distinct (map fst ps)
            \<and> (fieldName, JObj b fs) \<in> set ps \<and> map_of (ot_fields ot) fieldName = Some fld
            \<and> \<not> startsWith fieldName ''__'' \<and> oc = Done \<longrightarrow>
            (\<exists>ot' fld' oid gx. map_of (schema m') typeName = Some (ObjectType ot')
               \<and> map_of (ot_fields ot') fieldName = Some fld'
               \<and> map_of (field_extensions fld') ''grafast'' = Some (JObj oid gx)
               \<and> field_extensions fld' = set_grafast (JObj oid gx) (field_extensions fld)
               \<and> next_oid (effects m) \<le> oid \<and> oid < next_oid (effects m')
               \<and> (typeof (get_prop (JObj b fs) ''resolve'') \<noteq> ''function''
                    \<longrightarrow> field_resolve fld' = field_resolve fld)
               \<and> (typeof (get_prop (JObj b fs) ''subscribe'') \<noteq> ''function''
                    \<longrightarrow> field_subscribe fld' = field_subscribe fld)
               \<and> (typeof (get_prop (JObj b fs) ''plan'') \<noteq> ''function''
                    \<longrightarrow> ''plan'' \<notin> fst ` set gx)
               \<and> (typeof (get_prop (JObj b fs) ''subscribePlan'') \<noteq> ''function''
                    \<longrightarrow> ''subscribePlan'' \<notin> fst ` set gx)))"
proof -
  let ?spec = "JObj a ps"
  have p1: "\<forall>m1 t1. map_of (schema m1) typeName = Some (ScalarType t1) \<longrightarrow>
            fst (mergeEntry (typeName, ?spec) m1) = Done
            \<and> console (effects (snd (mergeEntry (typeName, ?spec) m1))) = console (effects m1)"
    by (simp add: mergeEntry_scalar_object)
  have p2: "\<forall>t. map_of (schema m) typeName = Some (ScalarType t) \<longrightarrow>
            (\<exists>t'. map_of (schema m') typeName = Some (ScalarType t')
               \<and> (typeof (get_prop ?spec ''serialize'') \<noteq> ''function'' \<longrightarrow> serialize t' = serialize t)
               \<and> (typeof (get_prop ?spec ''parseValue'') \<noteq> ''function''
                    \<longrightarrow> parseValue t' = parseValue t)
               \<and> (typeof (get_prop ?spec ''parseLiteral'') \<noteq> ''function''
                    \<longrightarrow> parseLiteral t' = parseLiteral t)
               \<and> (typeof (get_prop ?spec ''plan'') \<noteq> ''function''
                    \<longrightarrow> scalar_extensions t' = scalar_extensions t))"
  proof (intro allI impI)
    fix t
    assume node: "map_of (schema m) typeName = Some (ScalarType t)"
    let ?goal = "\<lambda>t'. map_of (schema m') typeName = Some (ScalarType t')
               \<and> (typeof (get_prop ?spec ''serialize'') \<noteq> ''function'' \<longrightarrow> serialize t' = serialize t)
               \<and> (typeof (get_prop ?spec ''parseValue'') \<noteq> ''function''
                    \<longrightarrow> parseValue t' = parseValue t)
               \<and> (typeof (get_prop ?spec ''parseLiteral'') \<noteq> ''function''
                    \<longrightarrow> parseLiteral t' = parseLiteral t)
               \<and> (typeof (get_prop ?spec ''plan'') \<noteq> ''function''
                    \<longrightarrow> scalar_extensions t' = scalar_extensions t)"
    from merge_reach[OF d inx run] show "\<exists>t'. ?goal t'"
    proof (elim disjE exE conjE)
      assume "map_of (schema m') typeName = map_of (schema m) typeName"
      then have "?goal t" using node by simp
      then show ?thesis ..
    next
      fix m1 oc1 m2
      assume st: "mergeEntry (typeName, ?spec) m1 = (oc1, m2)"
        and f1: "map_of (schema m1) typeName = map_of (schema m) typeName"
        and f2: "map_of (schema m') typeName = map_of (schema m2) typeName"
      have n1: "map_of (schema m1) typeName = Some (ScalarType t)" using f1 node by simp
      have v: "\<not> invalid_spec ?spec" by (simp add: invalid_spec_def)
      from mergeEntry_scalar[OF n1 st] v obtain t2 where
        sb: "scalarBody ?spec (t, effects m1) = (t2, effects m2)"
        and n2: "map_of (schema m2) typeName = Some (ScalarType t2)"
        by auto
      have "?goal t2"
        using n2 f2 scalarBody_serialize[OF sb] scalarBody_parseValue[OF sb]
          scalarBody_parseLiteral[OF sb] scalarBody_plan[OF sb]
        by (simp del: get_prop.simps)
      then show ?thesis ..
    qed
  qed
  have p3: "\<forall>fieldName b fs fld e.
            (\<forall>x \<in> set (entries (get_prop (JObj b fs) ''args'')). typeof (snd x) \<noteq> ''function'')
            \<longrightarrow> fst (fieldBody typeName fieldName (JObj b fs) (fld, e)) = Done"
    by (intro allI impI, rule fieldBody_no_error) simp_all
  have p4: "\<forall>ot fieldName b fs fld.
            map_of (schema m) typeName = Some (ObjectType ot) \<and> distinct (map fst ps)
            \<and> (fieldName, JObj b fs) \<in> set ps \<and> map_of (ot_fields ot) fieldName = Some fld
            \<and> \<not> startsWith fieldName ''__'' \<and> oc = Done \<longrightarrow>
            (\<exists>ot' fld' oid gx. map_of (schema m') typeName = Some (ObjectType ot')
               \<and> map_of (ot_fields ot') fieldName = Some fld'
               \<and> map_of (field_extensions fld') ''grafast'' = Some (JObj oid gx)
               \<and> field_extensions fld' = set_grafast (JObj oid gx) (field_extensions fld)
               \<and> next_oid (effects m) \<le> oid \<and> oid < next_oid (effects m')
               \<and> (typeof (get_prop (JObj b fs) ''resolve'') \<noteq> ''function''
                    \<longrightarrow> field_resolve fld' = field_resolve fld)
               \<and> (typeof (get_prop (JObj b fs) ''subscribe'') \<noteq> ''function''
                    \<longrightarrow> field_subscribe fld' = field_subscribe fld)
               \<and> (typeof (get_prop (JObj b fs) ''plan'') \<noteq> ''function''
                    \<longrightarrow> ''plan'' \<notin> fst ` set gx)
               \<and> (typeof (get_prop (JObj b fs) ''subscribePlan'') \<noteq> ''function''
                    \<longrightarrow> ''subscribePlan'' \<notin> fst ` set gx))"
  proof (intro allI impI, elim conjE)
    fix ot fieldName b fs fld
    assume node: "map_of (schema m) typeName = Some (ObjectType ot)"
      and de: "distinct (map fst ps)" and inf: "(fieldName, JObj b fs) \<in> set ps"
      and fld: "map_of (ot_fields ot) fieldName = Some fld"
      and nu: "\<not> startsWith fieldName ''__''" and dn: "oc = Done"
    have de': "distinct (map fst (entries ?spec))" using de by (simp add: entries_def)
    have inf': "(fieldName, JObj b fs) \<in> set (entries ?spec)" using inf by (simp add: entries_def)
    have run': "mergePlans plans m = (Done, m')" using run dn by simp
    from merge_object_field_focus[OF d inx node de' inf' fld nu run'] obtain ot' fld' e1 e2 where
      n: "map_of (schema m') typeName = Some (ObjectType ot')"
      and f: "map_of (ot_fields ot') fieldName = Some fld'"
      and fb: "fieldBody typeName fieldName (JObj b fs) (fld, e1) = (Done, (fld', e2))"
      and l1: "env_le (effects m) e1" and l2: "env_le e2 (effects m')"
      by (elim exE conjE)
    define gx where "gx = (if typeof (get_prop (JObj b fs) ''plan'') = ''function''
                    then [(''plan'', get_prop (JObj b fs) ''plan'')] else [])
                 @ (if typeof (get_prop (JObj b fs) ''subscribePlan'') = ''function''
                    then [(''subscribePlan'', get_prop (JObj b fs) ''subscribePlan'')] else [])"
    have s: "field_resolve fld' =
           (if typeof (get_prop (JObj b fs) ''resolve'') = ''function''
            then get_prop (JObj b fs) ''resolve'' else field_resolve fld)
       \<and> field_subscribe fld' =
           (if typeof (get_prop (JObj b fs) ''subscribe'') = ''function''
            then get_prop (JObj b fs) ''subscribe'' else field_subscribe fld)
       \<and> field_extensions fld' = set_grafast (JObj (next_oid e1) gx) (field_extensions fld)"
      unfolding gx_def using fieldBody_struct[OF _ _ _ fb] by simp
    have x: "map_of (field_extensions fld') ''grafast'' = Some (JObj (next_oid e1) gx)"
      using s by (simp add: set_grafast_def map_of_update_same)
    have xs: "field_extensions fld' = set_grafast (JObj (next_oid e1) gx) (field_extensions fld)"
      using s by simp
    have o1: "next_oid (effects m) \<le> next_oid e1" by (rule env_le_oid[OF l1])
    have "next_oid e1 < next_oid e2" using fieldBody_env[OF fb] by simp
    moreover have "next_oid e2 \<le> next_oid (effects m')" by (rule env_le_oid[OF l2])
    ultimately have o2: "next_oid e1 < next_oid (effects m')" by simp
    have k1: "typeof (get_prop (JObj b fs) ''plan'') \<noteq> ''function'' \<longrightarrow> ''plan'' \<notin> fst ` set gx"
      unfolding gx_def by (auto simp del: get_prop.simps)
    have k2: "typeof (get_prop (JObj b fs) ''subscribePlan'') \<noteq> ''function''
                \<longrightarrow> ''subscribePlan'' \<notin> fst ` set gx"
      unfolding gx_def by (auto simp del: get_prop.simps)
    have r1: "typeof (get_prop (JObj b fs) ''resolve'') \<noteq> ''function''
                \<longrightarrow> field_resolve fld' = field_resolve fld"
      using s by (simp del: get_prop.simps)
    have r2: "typeof (get_prop (JObj b fs) ''subscribe'') \<noteq> ''function''
                \<longrightarrow> field_subscribe fld' = field_subscribe fld"
      using s by (simp del: get_prop.simps)
    show "\<exists>ot' fld' oid gx. map_of (schema m') typeName = Some (ObjectType ot')
               \<and> map_of (ot_fields ot') fieldName = Some fld'
               \<and> map_of (field_extensions fld') ''grafast'' = Some (JObj oid gx)
               \<and> field_extensions fld' = set_grafast (JObj oid gx) (field_extensions fld)
               \<and> next_oid (effects m) \<le> oid \<and> oid < next_oid (effects m')
               \<and> (typeof (get_prop (JObj b fs) ''resolve'') \<noteq> ''function''
                    \<longrightarrow> field_resolve fld' = field_resolve fld)
               \<and> (typeof (get_prop (JObj b fs) ''subscribe'') \<noteq> ''function''
                    \<longrightarrow> field_subscribe fld' = field_subscribe fld)
               \<and> (typeof (get_prop (JObj b fs) ''plan'') \<noteq> ''function''
                    \<longrightarrow> ''plan'' \<notin> fst ` set gx)
               \<and> (typeof (get_prop (JObj b fs) ''subscribePlan'') \<noteq> ''function''
                    \<longrightarrow> ''subscribePlan'' \<notin> fst ` set gx)"
      using n f x xs o1 o2 r1 r2 k1 k2 by (intro exI conjI)
  qed
  show ?thesis using p1 p2 p3 p4 by (intro conjI)
qed

theorem non_function_hooks_are_ignored_witness:
  "distinct (map fst ex_ignored_plans)
   \<and> fst (mergePlans ex_ignored_plans ex_state) = Done
   \<and> fst (mergeEntry (''Date'', JObj 1 [(''serialize'', JStr ''iso''), (''parseValue'', JFun 5),
                                         (''plan'', JNum 3)]) ex_state) = Done
   \<and> (\<exists>t'. map_of (schema (snd (mergePlans ex_ignored_plans ex_state))) ''Date''
               = Some (ScalarType t')
          \<and> serialize t' = JFun 90 \<and> parseLiteral t' = JFun 92 \<and> scalar_extensions t' = [])
   \<and> fst (fieldBody ''Query'' ''hello''
            (JObj 3 [(''resolve'', JNull), (''subscribe'', JNum 1), (''plan'', JStr ''p''),
                     (''subscribePlan'', JObj 4 [])])
            (ex_hello, effects ex_state)) = Done
   \<and> (\<exists>ot' fld' oid gx. map_of (schema (snd (mergePlans ex_ignored_plans ex_state))) ''Query''
                             = Some (ObjectType ot')
          \<and> map_of (ot_fields ot') ''hello'' = Some fld'
          \<and> map_of (field_extensions fld') ''grafast'' = Some (JObj oid gx)
          \<and> field_extensions fld' = [(''grafast'', JObj oid gx)] \<and> 100 \<le> oid
          \<and> field_resolve fld' = JUndefined \<and> field_subscribe fld' = JUndefined
          \<and> ''plan'' \<notin> fst ` set gx \<and> ''subscribePlan'' \<notin> fst ` set gx)"
proof -
  let ?ps = "[(''serialize'', JStr ''iso''), (''parseValue'', JFun 5), (''plan'', JNum 3)]"
  let ?fs = "[(''resolve'', JNull), (''subscribe'', JNum 1), (''plan'', JStr ''p''),
              (''subscribePlan'', JObj 4 [])]"
  let ?qs = "[(''hello'', JObj 3 ?fs)]"
  have d: "distinct (map fst ex_ignored_plans)" by (simp add: ex_ignored_plans_def)
  have i1: "(''Date'', JObj 1 ?ps) \<in> set ex_ignored_plans" by (simp add: ex_ignored_plans_def)
  have i2: "(''Query'', JObj 2 ?qs) \<in> set ex_ignored_plans" by (simp add: ex_ignored_plans_def)
  have n1: "map_of (schema ex_state) ''Date'' = Some (ScalarType ex_date)"
    by (simp add: ex_state_def ex_graph_def)
  have n2: "map_of (schema ex_state) ''Query'' = Some (ObjectType ex_query)"
    by (simp add: ex_state_def ex_graph_def)
  have dn: "fst (mergePlans ex_ignored_plans ex_state) = Done"
    by (simp add: mergePlans_def ex_ignored_plans_def ex_state_def ex_graph_def mergeEntry_def
          invalid_spec_def entries_def objectStep_def ex_query_def ex_hello_def startsWith_def
          fieldBody_def fieldHooks_def scalarBody_def put_type_def alloc_def)
  have r: "mergePlans ex_ignored_plans ex_state
             = (fst (mergePlans ex_ignored_plans ex_state),
                snd (mergePlans ex_ignored_plans ex_state))"
    by simp
  note A = non_function_hooks_are_ignored[OF d i1 r]
  note B = non_function_hooks_are_ignored[OF d i2 r]
  have a1: "fst (mergeEntry (''Date'', JObj 1 ?ps) ex_state) = Done"
    using A n1 by blast
  have t1: "typeof (get_prop (JObj 1 ?ps) ''serialize'') \<noteq> ''function''" by simp
  have t2: "typeof (get_prop (JObj 1 ?ps) ''parseLiteral'') \<noteq> ''function''" by simp
  have t3: "typeof (get_prop (JObj 1 ?ps) ''plan'') \<noteq> ''function''" by simp
  have a2: "\<exists>t'. map_of (schema (snd (mergePlans ex_ignored_plans ex_state))) ''Date''
               = Some (ScalarType t')
          \<and> serialize t' = serialize ex_date \<and> parseLiteral t' = parseLiteral ex_date
          \<and> scalar_extensions t' = scalar_extensions ex_date"
    using A n1 t1 t2 t3 by blast
  have noarg: "\<forall>x \<in> set (entries (get_prop (JObj 3 ?fs) ''args'')). typeof (snd x) \<noteq> ''function''"
    by (simp add: entries_def)
  have b1: "fst (fieldBody ''Query'' ''hello'' (JObj 3 ?fs) (ex_hello, effects ex_state)) = Done"
    using B noarg by blast
  have f1: "map_of (ot_fields ex_query) ''hello'' = Some ex_hello" by (simp add: ex_query_def)
  have nu: "\<not> startsWith ''hello'' ''__''" by (simp add: startsWith_def)
  have dq: "distinct (map fst ?qs)" by simp
  have iq: "(''hello'', JObj 3 ?fs) \<in> set ?qs" by simp
  have u1: "typeof (get_prop (JObj 3 ?fs) ''resolve'') \<noteq> ''function''" by simp
  have u2: "typeof (get_prop (JObj 3 ?fs) ''subscribe'') \<noteq> ''function''" by simp
  have u3: "typeof (get_prop (JObj 3 ?fs) ''plan'') \<noteq> ''function''" by simp
  have u4: "typeof (get_prop (JObj 3 ?fs) ''subscribePlan'') \<noteq> ''function''" by simp
  have b2: "\<exists>ot' fld' oid gx. map_of (schema (snd (mergePlans ex_ignored_plans ex_state))) ''Query''
                             = Some (ObjectType ot')
          \<and> map_of (ot_fields ot') ''hello'' = Some fld'
          \<and> map_of (field_extensions fld') ''grafast'' = Some (JObj oid gx)
          \<and> field_extensions fld' = set_grafast (JObj oid gx) (field_extensions ex_hello)
          \<and> next_oid (effects ex_state) \<le> oid
          \<and> field_resolve fld' = field_resolve ex_hello
          \<and> field_subscribe fld' = field_subscribe ex_hello
          \<and> ''plan'' \<notin> fst ` set gx \<and> ''subscribePlan'' \<notin> fst ` set gx"
    using B n2 dq iq f1 nu dn u1 u2 u3 u4 by blast
  have e1: "serialize ex_date = JFun 90" "parseLiteral ex_date = JFun 92"
    "scalar_extensions ex_date = []"
    by (simp_all add: ex_date_def)
  have e2: "field_resolve ex_hello = JUndefined" "field_subscribe ex_hello = JUndefined"
    by (simp_all add: ex_hello_def)
  have e3: "set_grafast v (field_extensions ex_hello) = [(''grafast'', v)]" for v
    by (simp add: ex_hello_def set_grafast_def)
  have e4: "next_oid (effects ex_state) = 100" by (simp add: ex_state_def)
  show ?thesis using d dn a1 a2 b1 b2 unfolding e1 e2 e3 e4 by (intro conjI)
qed

end
